theory Spec2Isabelle
  imports Complex_Main "HOL-Library.Word" "HOL-Library.Monad_Syntax"
begin


section \<open>The audio recorder component (frontend/components/audio-recorder.tsx)\<close>

text \<open>
  The source file holds four revisions of the \<open>AudioRecorder\<close> component. Two
  recording paths occur in them. Revisions 1, 3 and 4 record through a
  \<open>MediaRecorder\<close>; their handlers are the same, revision 4 adds transcription and
  "record again", and revision 3 differs in its controls and its one-second timer only.
  Revision 2 captures raw samples and encodes a WAV file itself. The WAV encoder comes
  first, then the MediaRecorder path, then the session of revision 2.
\<close>

subsection \<open>Numbers, array buffers and data views\<close>

text \<open>
  An element of a \<open>Float32Array\<close> is a finite binary fraction, an infinity or NaN. The
  finite ones are embedded in the reals: with a 24-bit significand, their products with
  \<open>0x8000\<close> and \<open>0x7fff\<close> are exact in double precision, so the real product is
  the value the code computes. \<open>Math.min\<close>, \<open>Math.max\<close>, \<open><\<close> and \<open>*\<close> are
  given for the operand shapes the code uses: a finite constant on one side.
\<close>

datatype number = Num real | PosInf | NegInf | NaN

fun Math_min :: "real \<Rightarrow> number \<Rightarrow> number" where
  "Math_min a (Num x) = Num (min a x)"
| "Math_min a PosInf = Num a"
| "Math_min a NegInf = NegInf"
| "Math_min a NaN = NaN"

fun Math_max :: "real \<Rightarrow> number \<Rightarrow> number" where
  "Math_max a (Num x) = Num (max a x)"
| "Math_max a PosInf = PosInf"
| "Math_max a NegInf = Num a"
| "Math_max a NaN = NaN"

text \<open>\<open>s < 0\<close>: false on NaN.\<close>

fun less_zero :: "number \<Rightarrow> bool" where
  "less_zero (Num x) = (x < 0)"
| "less_zero PosInf = False"
| "less_zero NegInf = True"
| "less_zero NaN = False"

text \<open>\<open>s * c\<close> for a finite constant \<open>c\<close>.\<close>

fun times_const :: "number \<Rightarrow> real \<Rightarrow> number" where
  "times_const (Num x) c = Num (x * c)"
| "times_const PosInf c = (if 0 < c then PosInf else if c < 0 then NegInf else NaN)"
| "times_const NegInf c = (if 0 < c then NegInf else if c < 0 then PosInf else NaN)"
| "times_const NaN c = NaN"

text \<open>
  \<open>ToInt16\<close> of ECMAScript, the conversion \<open>DataView.setInt16\<close> applies to its
  value: NaN and the infinities become 0, a finite number is truncated towards zero and
  reduced modulo \<open>2^16\<close> (\<open>word_of_int\<close>); \<open>sint\<close> reads the signed result.
\<close>

definition js_truncate :: "real \<Rightarrow> int" where
  "js_truncate x = (if x < 0 then \<lceil>x\<rceil> else \<lfloor>x\<rfloor>)"

fun ToInt16 :: "number \<Rightarrow> 16 word" where
  "ToInt16 (Num x) = word_of_int (js_truncate x)"
| "ToInt16 PosInf = 0"
| "ToInt16 NegInf = 0"
| "ToInt16 NaN = 0"

text \<open>
  An \<open>ArrayBuffer\<close> is its list of bytes, zero-filled when created; a \<open>DataView\<close>
  over the whole buffer is the same list. Every setter checks its range and throws
  \<open>RangeError\<close> outside it: the value \<open>None\<close>. All multi-byte writes of the source
  pass \<open>littleEndian = true\<close>.
\<close>

type_synonym byte = "8 word"

definition ArrayBuffer :: "nat \<Rightarrow> byte list" where
  "ArrayBuffer n = replicate n 0"

definition setUint8 :: "byte list \<Rightarrow> nat \<Rightarrow> nat \<Rightarrow> byte list option" where
  "setUint8 view byteOffset v =
     (if byteOffset + 1 \<le> length view then Some (view[byteOffset := of_nat v]) else None)"

definition setUint16 :: "byte list \<Rightarrow> nat \<Rightarrow> nat \<Rightarrow> byte list option" where
  "setUint16 view byteOffset v =
     (if byteOffset + 2 \<le> length view
      then Some (view[byteOffset := of_nat v, byteOffset + 1 := of_nat (v div 256)])
      else None)"

definition setUint32 :: "byte list \<Rightarrow> nat \<Rightarrow> nat \<Rightarrow> byte list option" where
  "setUint32 view byteOffset v =
     (if byteOffset + 4 \<le> length view
      then Some (view[byteOffset := of_nat v,
                      byteOffset + 1 := of_nat (v div 256),
                      byteOffset + 2 := of_nat (v div 65536),
                      byteOffset + 3 := of_nat (v div 16777216)])
      else None)"

definition setInt16 :: "byte list \<Rightarrow> nat \<Rightarrow> number \<Rightarrow> byte list option" where
  "setInt16 view byteOffset v =
     (if byteOffset + 2 \<le> length view
      then (let w = ToInt16 v
            in Some (view[byteOffset := ucast w, byteOffset + 1 := ucast (drop_bit 8 w)]))
      else None)"

text \<open>
  \<open>new Int16Array(buffer)\<close> views the bytes as 16-bit integers in platform byte order
  (little-endian on every platform the component runs on) and throws \<open>RangeError\<close> on
  a buffer of odd length.
\<close>

fun Int16Array :: "byte list \<Rightarrow> 16 word list option" where
  "Int16Array [] = Some []"
| "Int16Array [b] = None"
| "Int16Array (lo # hi # bs) = map_option ((#) (word_cat hi lo)) (Int16Array bs)"

text \<open>The readers a consumer of the file uses on the header fields (little-endian).\<close>

definition getUint16 :: "byte list \<Rightarrow> nat \<Rightarrow> nat option" where
  "getUint16 view byteOffset =
     (if byteOffset + 2 \<le> length view
      then Some (unat (view ! byteOffset) + 256 * unat (view ! (byteOffset + 1)))
      else None)"

definition getUint32 :: "byte list \<Rightarrow> nat \<Rightarrow> nat option" where
  "getUint32 view byteOffset =
     (if byteOffset + 4 \<le> length view
      then Some (unat (view ! byteOffset) + 256 * unat (view ! (byteOffset + 1))
                 + 65536 * unat (view ! (byteOffset + 2))
                 + 16777216 * unat (view ! (byteOffset + 3)))
      else None)"

definition ascii :: "string \<Rightarrow> byte list" where
  "ascii str = map (\<lambda>c. of_nat (of_char c)) str"

subsection \<open>The WAV encoder (revision 2)\<close>

text \<open>
  The body of the loop of \<open>floatTo16BitPCM\<close>: \<open>clip\<close> is
  \<open>Math.max(-1, Math.min(1, float32Array[i]))\<close> and \<open>scale\<close> is
  \<open>s < 0 ? s * 0x8000 : s * 0x7fff\<close>, the value handed to \<open>setInt16\<close>.
\<close>

definition clip :: "number \<Rightarrow> number" where
  "clip x = Math_max (- 1) (Math_min 1 x)"

definition scale :: "number \<Rightarrow> number" where
  "scale s = (if less_zero s then times_const s 32768 else times_const s 32767)"

text \<open>The loop, over the samples from index \<open>i\<close> on, with \<open>offset = 2 * i\<close>.\<close>

fun floatTo16BitPCM_loop :: "number list \<Rightarrow> nat \<Rightarrow> byte list \<Rightarrow> byte list option" where
  "floatTo16BitPCM_loop [] offset view = Some view"
| "floatTo16BitPCM_loop (x # xs) offset view =
     do { view' \<leftarrow> setInt16 view offset (scale (clip x));
          floatTo16BitPCM_loop xs (offset + 2) view' }"

definition floatTo16BitPCM :: "number list \<Rightarrow> 16 word list option" where
  "floatTo16BitPCM float32Array =
     do { buffer \<leftarrow> floatTo16BitPCM_loop float32Array 0 (ArrayBuffer (length float32Array * 2));
          Int16Array buffer }"

fun writeString :: "byte list \<Rightarrow> nat \<Rightarrow> string \<Rightarrow> byte list option" where
  "writeString view offset [] = Some view"
| "writeString view offset (c # cs) =
     do { view' \<leftarrow> setUint8 view offset (of_char c);
          writeString view' (offset + 1) cs }"

text \<open>
  The second loop of \<open>encodeWAV\<close>, over \<open>pcmData\<close> from index \<open>i\<close> on; an element
  of the \<open>Int16Array\<close> is read as the number \<open>sint w\<close>.
\<close>

fun encodeWAV_loop :: "16 word list \<Rightarrow> nat \<Rightarrow> byte list \<Rightarrow> byte list option" where
  "encodeWAV_loop [] i view = Some view"
| "encodeWAV_loop (w # ws) i view =
     do { view' \<leftarrow> setInt16 view (44 + i * 2) (Num (real_of_int (sint w)));
          encodeWAV_loop ws (i + 1) view' }"

definition encodeWAV :: "number list \<Rightarrow> nat \<Rightarrow> byte list option" where
  "encodeWAV samples sampleRate =
     (let len = length samples;
          view = ArrayBuffer (44 + len * 2)
      in do {
        view \<leftarrow> writeString view 0 ''RIFF'';
        view \<leftarrow> setUint32 view 4 (36 + len * 2);
        view \<leftarrow> writeString view 8 ''WAVE'';
        view \<leftarrow> writeString view 12 ''fmt '';
        view \<leftarrow> setUint32 view 16 16;
        view \<leftarrow> setUint16 view 20 1;
        view \<leftarrow> setUint16 view 22 1;
        view \<leftarrow> setUint32 view 24 sampleRate;
        view \<leftarrow> setUint32 view 28 (sampleRate * 2);
        view \<leftarrow> setUint16 view 32 2;
        view \<leftarrow> setUint16 view 34 16;
        view \<leftarrow> writeString view 36 ''data'';
        view \<leftarrow> setUint32 view 40 (len * 2);
        pcmData \<leftarrow> floatTo16BitPCM samples;
        encodeWAV_loop pcmData 0 view
      })"

text \<open>
  What the encoder is compared with: the byte sequences of the fields, the canonical
  44-byte header, the order \<open>\<le>\<close> of JavaScript numbers (false on NaN), and the signed
  16-bit value stored for one input sample.
\<close>

definition int16_bytes :: "16 word \<Rightarrow> byte list" where
  "int16_bytes w = [ucast w, ucast (drop_bit 8 w)]"

definition uint16_bytes :: "nat \<Rightarrow> byte list" where
  "uint16_bytes v = [of_nat v, of_nat (v div 256)]"

definition uint32_bytes :: "nat \<Rightarrow> byte list" where
  "uint32_bytes v = [of_nat v, of_nat (v div 256), of_nat (v div 65536), of_nat (v div 16777216)]"

definition wav_header :: "nat \<Rightarrow> nat \<Rightarrow> byte list" where
  "wav_header len sampleRate =
     ascii ''RIFF'' @ uint32_bytes (36 + len * 2) @ ascii ''WAVE'' @ ascii ''fmt ''
     @ uint32_bytes 16 @ uint16_bytes 1 @ uint16_bytes 1 @ uint32_bytes sampleRate
     @ uint32_bytes (sampleRate * 2) @ uint16_bytes 2 @ uint16_bytes 16 @ ascii ''data''
     @ uint32_bytes (len * 2)"

fun number_le :: "number \<Rightarrow> number \<Rightarrow> bool" where
  "number_le NaN y = False"
| "number_le x NaN = False"
| "number_le NegInf y = True"
| "number_le x PosInf = True"
| "number_le (Num a) (Num b) = (a \<le> b)"
| "number_le (Num a) NegInf = False"
| "number_le PosInf y = False"

definition pcm_sample :: "number \<Rightarrow> int" where
  "pcm_sample x = sint (ToInt16 (scale (clip x)))"

subsection \<open>Blobs, the component state and the runtime resources it owns\<close>

text \<open>
  A \<open>Blob\<close> is its bytes and its declared media type; \<open>new Blob(parts, {type})\<close>
  concatenates the parts. (The constructor lower-cases the type; every type the component
  passes is lower-case ASCII already.)
\<close>

record blob =
  blob_data :: "byte list"
  blob_type :: string

definition blob_size :: "blob \<Rightarrow> nat" where
  "blob_size b = length (blob_data b)"

definition new_Blob :: "blob list \<Rightarrow> string \<Rightarrow> blob" where
  "new_Blob parts ty = \<lparr>blob_data = concat (map blob_data parts), blob_type = ty\<rparr>"

text \<open>
  The \<open>useState\<close> and \<open>useRef\<close> cells shared by all four revisions, followed by the
  part of the runtime the component acts on: the interval timers that are running, the
  media streams whose tracks are live (the input device is held while one is), the
  object URLs not yet revoked, and the next fresh handle. Timers, streams and URLs are
  named by handles; \<open>recordingTime\<close> is in milliseconds in revisions 1 and 4 and in
  seconds in revisions 2 and 3.
\<close>

record audio_element =
  paused :: bool
  currentTime :: nat

record recorder =
  isRecording :: bool
  isPlaying :: bool
  recordingTime :: int
  audioBlob :: "blob option"
  audioUrl :: "nat option"
  audioRef :: "audio_element option"
  streamRef :: "nat option"
  timerRef :: "nat option"
  intervals :: "nat list"
  liveStreams :: "nat list"
  objectUrls :: "nat list"
  nextId :: nat

text \<open>
  \<open>clearInterval\<close>, stopping the tracks of a stream and \<open>URL.revokeObjectURL\<close>, each
  behind the source's \<open>if (ref)\<close> guard: nothing happens on a null reference.
\<close>

definition release :: "nat option \<Rightarrow> nat list \<Rightarrow> nat list" where
  "release ref handles = (case ref of None \<Rightarrow> handles | Some h \<Rightarrow> removeAll h handles)"

text \<open>
  The three states of the specification, as the component itself tells them apart when
  it renders (\<open>isRecording ? \<dots> : audioUrl ? \<dots> : \<dots>\<close>).
\<close>

datatype session_state = Idle | Recording | Stopped

definition session_state :: "'a recorder_scheme \<Rightarrow> session_state" where
  "session_state s =
     (if isRecording s then Recording else if audioUrl s \<noteq> None then Stopped else Idle)"

datatype js_error = RangeError | InvalidStateError

datatype effect = ConsoleLog string | ConsoleError string | Alert string

text \<open>
  The outcome of \<open>navigator.mediaDevices.getUserMedia\<close>: the promise rejects (permission
  denied, no device, constraints not satisfiable) or yields a live stream.
\<close>

datatype getUserMedia_result = Rejected string | Granted

subsection \<open>The MediaRecorder path (revisions 1, 3 and 4)\<close>

record media_recorder =
  recorder_mimeType :: string
  recording :: bool

record session = recorder +
  mediaRecorderRef :: "media_recorder option"
  chunksRef :: "blob list"
  startTimeRef :: "int option"
  isTranscribing :: bool
  transcript :: "string option"
  transcriptError :: "string option"
  showTranscript :: bool

definition initial_session :: session where
  "initial_session =
     \<lparr>isRecording = False, isPlaying = False, recordingTime = 0, audioBlob = None,
      audioUrl = None, audioRef = None, streamRef = None, timerRef = None,
      intervals = [], liveStreams = [], objectUrls = [], nextId = 1,
      mediaRecorderRef = None, chunksRef = [], startTimeRef = None,
      isTranscribing = False, transcript = None, transcriptError = None,
      showTranscript = False\<rparr>"

definition getSupportedMimeType :: "(string \<Rightarrow> bool) \<Rightarrow> string" where
  \<open>getSupportedMimeType isTypeSupported =
     (case find isTypeSupported
        [''audio/mp4; codecs="mp4a.40.2"'', ''audio/webm; codecs=opus'', ''audio/webm'',
         ''audio/mp4'', ''audio/ogg; codecs=opus'', ''audio/ogg'']
      of Some ty \<Rightarrow> ty | None \<Rightarrow> ''audio/webm'')\<close>

text \<open>
  \<open>startRecording\<close>. A rejected \<open>getUserMedia\<close> goes straight to the \<open>catch\<close>
  block. So does \<open>new MediaRecorder\<close> when it throws on an unsupported type, by then
  with the stream stored in \<open>streamRef\<close>. \<open>now\<close> is \<open>Date.now()\<close>.
\<close>

definition startRecording ::
  "getUserMedia_result \<Rightarrow> (string \<Rightarrow> bool) \<Rightarrow> int \<Rightarrow> session \<Rightarrow> session \<times> effect list" where
  "startRecording media isTypeSupported now s =
     (case media of
        Rejected err \<Rightarrow>
          (s, [ConsoleError ''Error accessing microphone:'',
               Alert ''Unable to access microphone. Please check permissions.''])
      | Granted \<Rightarrow>
          (let stream = nextId s;
               s1 = s\<lparr>streamRef := Some stream, liveStreams := stream # liveStreams s,
                      nextId := Suc stream\<rparr>;
               mimeType = getSupportedMimeType isTypeSupported
           in if \<not> isTypeSupported mimeType
              then (s1, [ConsoleLog ''Using MIME type:'',
                         ConsoleError ''Error accessing microphone:'',
                         Alert ''Unable to access microphone. Please check permissions.''])
              else (let timer = nextId s1
                    in (s1\<lparr>mediaRecorderRef := Some \<lparr>recorder_mimeType = mimeType, recording = True\<rparr>,
                            chunksRef := [],
                            isRecording := True,
                            recordingTime := 0,
                            startTimeRef := Some now,
                            timerRef := Some timer,
                            intervals := timer # intervals s1,
                            nextId := Suc timer\<rparr>,
                        [ConsoleLog ''Using MIME type:'']))))"

text \<open>The handlers registered on the recorder; \<open>onstop\<close> closes over \<open>mimeType\<close>.\<close>

definition ondataavailable :: "blob \<Rightarrow> session \<Rightarrow> session" where
  "ondataavailable data s =
     (if blob_size data > 0 then s\<lparr>chunksRef := chunksRef s @ [data]\<rparr> else s)"

definition onstop :: "string \<Rightarrow> session \<Rightarrow> session" where
  "onstop mimeType s =
     (let blob = new_Blob (chunksRef s) mimeType;
          url = nextId s
      in s\<lparr>audioBlob := Some blob,
            audioUrl := Some url,
            objectUrls := url # objectUrls s,
            nextId := Suc url,
            liveStreams := release (streamRef s) (liveStreams s)\<rparr>)"

text \<open>The interval callback of revisions 1 and 4; it runs only while its timer does.\<close>

definition tick :: "int \<Rightarrow> session \<Rightarrow> session" where
  "tick now s =
     (if intervals s = [] then s
      else (case startTimeRef s of
              None \<Rightarrow> s
            | Some t \<Rightarrow> if t = 0 then s else s\<lparr>recordingTime := now - t\<rparr>))"

text \<open>
  \<open>stopRecording\<close>. \<open>MediaRecorder.stop()\<close> throws \<open>InvalidStateError\<close> on an
  inactive recorder, before any state is set.
\<close>

definition stopRecording :: "session \<Rightarrow> js_error + session" where
  "stopRecording s =
     (case mediaRecorderRef s of
        None \<Rightarrow> Inr s
      | Some r \<Rightarrow>
          if isRecording s
          then (if recording r
                then Inr (s\<lparr>mediaRecorderRef := Some (r\<lparr>recording := False\<rparr>),
                           isRecording := False,
                           intervals := release (timerRef s) (intervals s)\<rparr>)
                else Inl InvalidStateError)
          else Inr s)"

text \<open>
  The cleanup of the effect on \<open>[audioUrl]\<close>, which closes over the URL of the render
  it belongs to, and what React does after a handler when the state has changed: it runs
  that cleanup if \<open>audioUrl\<close> differs, and mounts or unmounts the \<open>audio\<close> element,
  which is rendered only while \<open>audioUrl\<close> is set.
\<close>

definition cleanup :: "nat option \<Rightarrow> 'a recorder_scheme \<Rightarrow> 'a recorder_scheme" where
  "cleanup closedUrl s =
     s\<lparr>intervals := release (timerRef s) (intervals s),
       liveStreams := release (streamRef s) (liveStreams s),
       objectUrls := release closedUrl (objectUrls s)\<rparr>"

definition mount :: "'a recorder_scheme \<Rightarrow> 'a recorder_scheme" where
  "mount s =
     (case audioUrl s of
        None \<Rightarrow> s\<lparr>audioRef := None\<rparr>
      | Some url \<Rightarrow>
          (case audioRef s of
             None \<Rightarrow> s\<lparr>audioRef := Some \<lparr>paused = True, currentTime = 0\<rparr>\<rparr>
           | Some a \<Rightarrow> s))"

definition rerender :: "'a recorder_scheme \<Rightarrow> 'a recorder_scheme \<Rightarrow> 'a recorder_scheme" where
  "rerender before after =
     mount (if audioUrl after \<noteq> audioUrl before then cleanup (audioUrl before) after else after)"

text \<open>
  The operation \<open>stop()\<close> of the specification: the handler \<open>stopRecording\<close>, then
  the two events the recorder fires once \<open>stop()\<close> was called on it (\<open>dataavailable\<close>
  with the data gathered since the last chunk, then \<open>stop\<close>), then the render. The
  events are taken to arrive before the next user action.
\<close>

definition stop :: "blob \<Rightarrow> session \<Rightarrow> js_error + session" where
  "stop final s =
     (case stopRecording s of
        Inl e \<Rightarrow> Inl e
      | Inr s1 \<Rightarrow>
          (case mediaRecorderRef s of
             None \<Rightarrow> Inr s1
           | Some r \<Rightarrow>
               if isRecording s
               then Inr (rerender s (onstop (recorder_mimeType r) (ondataavailable final s1)))
               else Inr s1))"

definition togglePlayback :: "'a recorder_scheme \<Rightarrow> 'a recorder_scheme" where
  "togglePlayback s =
     (case audioRef s of
        None \<Rightarrow> s
      | Some a \<Rightarrow>
          if audioUrl s = None then s
          else if isPlaying s
          then s\<lparr>audioRef := Some (a\<lparr>paused := True\<rparr>), isPlaying := False\<rparr>
          else s\<lparr>audioRef := Some (a\<lparr>paused := False\<rparr>), isPlaying := True\<rparr>)"

text \<open>
  \<open>downloadAudio\<close>: the extension chosen from the media type, and the file name given
  to the link, where \<open>isoString\<close> is \<open>new Date().toISOString()\<close>. The state is not touched.
\<close>

fun startsWith :: "string \<Rightarrow> string \<Rightarrow> bool" where
  "startsWith s [] = True"
| "startsWith [] (p # ps) = False"
| "startsWith (c # cs) (p # ps) = (c = p \<and> startsWith cs ps)"

fun String_includes :: "string \<Rightarrow> string \<Rightarrow> bool" where
  "String_includes [] search = (search = [])"
| "String_includes (c # cs) search = (startsWith (c # cs) search \<or> String_includes cs search)"

definition extension :: "string \<Rightarrow> string" where
  "extension mimeType =
     (if String_includes mimeType ''mp4'' then ''m4a''
      else if String_includes mimeType ''webm'' then ''webm''
      else if String_includes mimeType ''ogg'' then ''ogg''
      else if String_includes mimeType ''wav'' then ''wav''
      else ''mp3'')"

definition timestamp :: "string \<Rightarrow> string" where
  "timestamp isoString = map (\<lambda>c. if c = CHR '':'' then CHR ''-'' else c) (take 19 isoString)"

definition downloadAudio :: "string \<Rightarrow> 'a recorder_scheme \<Rightarrow> string option" where
  "downloadAudio isoString s =
     (case audioBlob s of
        None \<Rightarrow> None
      | Some blob \<Rightarrow>
          (case audioUrl s of
             None \<Rightarrow> None
           | Some url \<Rightarrow>
               Some (''recording-'' @ timestamp isoString @ ''.'' @ extension (blob_type blob))))"

text \<open>
  \<open>transcribeAudio\<close> (revision 4). The outcome of \<open>fetch\<close> is a network failure with
  its message, or a response with a status and a body; the body is not JSON (then
  \<open>response.json()\<close> throws with a message) or an object whose \<open>detail\<close> and
  \<open>transcript\<close> fields, where present, are strings. \<open>response.ok\<close> is a status in
  200..299, and \<open>errorData.detail || "Transcription failed"\<close> takes the detail unless
  it is missing or empty.
\<close>

datatype response_body = NotJson string | Json "string option" "string option"

datatype fetch_result = NetworkError string | Response nat response_body

definition ok :: "nat \<Rightarrow> bool" where
  "ok status = (200 \<le> status \<and> status \<le> 299)"

definition transcribeAudio :: "fetch_result \<Rightarrow> session \<Rightarrow> session" where
  "transcribeAudio result s =
     (case audioBlob s of
        None \<Rightarrow> s
      | Some blob \<Rightarrow>
          (let s1 = s\<lparr>isTranscribing := True, transcriptError := None, transcript := None\<rparr>;
               s2 = (case result of
                       NetworkError message \<Rightarrow> s1\<lparr>transcriptError := Some message\<rparr>
                     | Response status body \<Rightarrow>
                         (case body of
                            NotJson message \<Rightarrow> s1\<lparr>transcriptError := Some message\<rparr>
                          | Json detail transcribed \<Rightarrow>
                              if \<not> ok status
                              then s1\<lparr>transcriptError :=
                                        Some (case detail of
                                                None \<Rightarrow> ''Transcription failed''
                                              | Some d \<Rightarrow>
                                                  if d = [] then ''Transcription failed'' else d)\<rparr>
                              else s1\<lparr>transcript := transcribed, showTranscript := True\<rparr>))
           in s2\<lparr>isTranscribing := False\<rparr>))"

text \<open>
  \<open>resetRecording\<close> (revision 4), and the operation \<open>reset()\<close> of the specification:
  the handler and the render that follows it.
\<close>

definition resetRecording :: "session \<Rightarrow> session" where
  "resetRecording s =
     s\<lparr>isRecording := False,
       isPlaying := False,
       recordingTime := 0,
       audioBlob := None,
       audioUrl := None,
       isTranscribing := False,
       transcript := None,
       transcriptError := None,
       showTranscript := False,
       audioRef := (case audioRef s of
                      None \<Rightarrow> None
                    | Some a \<Rightarrow> Some (a\<lparr>paused := True, currentTime := 0\<rparr>))\<rparr>"

definition reset :: "session \<Rightarrow> session" where
  "reset s = rerender s (resetRecording s)"

text \<open>
  What the transcript panel of revision 4 shows. The panel is rendered while
  \<open>transcript || transcriptError || isTranscribing\<close> (an empty string counts as
  false); its body, and with it the error text and the transcript, only while
  \<open>showTranscript\<close> is set.
\<close>

definition truthy :: "string option \<Rightarrow> bool" where
  "truthy v = (case v of None \<Rightarrow> False | Some str \<Rightarrow> str \<noteq> [])"

definition panel :: "session \<Rightarrow> bool" where
  "panel s = (truthy (transcript s) \<or> truthy (transcriptError s) \<or> isTranscribing s)"

definition shown_error :: "session \<Rightarrow> string option" where
  "shown_error s =
     (if panel s \<and> showTranscript s \<and> truthy (transcriptError s) then transcriptError s
      else None)"

definition shown_transcript :: "session \<Rightarrow> string option" where
  "shown_transcript s =
     (if panel s \<and> showTranscript s \<and> truthy (transcript s) \<and> \<not> isTranscribing s
      then transcript s else None)"

text \<open>
  The states of the component in revisions 1, 3 and 4, from the initial one. Every
  handler and every callback is a step of its own and may be taken in any state. The
  controls differ between the revisions (revision 3 offers Start whenever nothing is
  being recorded, also beside an artifact); \<open>startRecording\<close> resumes after its
  \<open>await\<close> in whatever state the session is in by then; and the recorder fires
  \<open>dataavailable\<close> and \<open>stop\<close> by itself, some time after \<open>stop()\<close> was called on
  it, or when its tracks end or it fails, in which cases it also turns inactive while
  \<open>isRecording\<close> is still set. Transcription is asynchronous as well: its cells, and
  \<open>showTranscript\<close> through the toggle of the panel, change independently of the rest.
  The timer of revision 3 counts seconds instead of reading the clock.
  The audio element changes its own playback state and reports it through the
  \<open>play\<close>, \<open>pause\<close> and \<open>ended\<close> events, which set \<open>isPlaying\<close>. A render may
  follow any step. A download changes nothing, and the upload of revision 3 only cells
  that are not part of this state.
\<close>

inductive reachable :: "session \<Rightarrow> bool" where
  init: "reachable initial_session"
| start: "reachable s \<Longrightarrow> reachable (fst (startRecording media isTypeSupported now s))"
| press_stop: "reachable s \<Longrightarrow> stopRecording s = Inr s' \<Longrightarrow> reachable s'"
| data: "reachable s \<Longrightarrow> reachable (ondataavailable chunk s)"
| stopped: "reachable s \<Longrightarrow> reachable (onstop mimeType s)"
| inactive: "reachable s \<Longrightarrow> mediaRecorderRef s = Some r \<Longrightarrow>
             reachable (s\<lparr>mediaRecorderRef := Some (r\<lparr>recording := False\<rparr>)\<rparr>)"
| timer: "reachable s \<Longrightarrow> reachable (tick now s)"
| seconds: "reachable s \<Longrightarrow> reachable (s\<lparr>recordingTime := recordingTime s + 1\<rparr>)"
| playback: "reachable s \<Longrightarrow> reachable (togglePlayback s)"
| events: "reachable s \<Longrightarrow> reachable (s\<lparr>isPlaying := playing\<rparr>)"
| element: "reachable s \<Longrightarrow> audioRef s = Some a \<Longrightarrow> reachable (s\<lparr>audioRef := Some a'\<rparr>)"
| transcribe: "reachable s \<Longrightarrow> reachable (transcribeAudio result s)"
| cells: "reachable s \<Longrightarrow>
          reachable (s\<lparr>isTranscribing := busy, transcript := words,
                       transcriptError := message, showTranscript := expanded\<rparr>)"
| again: "reachable s \<Longrightarrow> reachable (resetRecording s)"
| render: "reachable before \<Longrightarrow> reachable after \<Longrightarrow> reachable (rerender before after)"

text \<open>The delivery of a sequence of chunks, in arrival order.\<close>

definition deliver :: "blob list \<Rightarrow> session \<Rightarrow> session" where
  "deliver chunks s = fold ondataavailable chunks s"


subsection \<open>The WAV path (revision 2)\<close>

text \<open>
  Revision 2 records through an \<open>AudioContext\<close>: a source node feeds a script
  processor whose callback copies every input buffer. Of the three nodes only whether
  they are still connected (the context: still open) matters here.
\<close>

record wav_session = recorder +
  audioContextRef :: "bool option"
  sourceRef :: "bool option"
  processorRef :: "bool option"
  audioDataRef :: "number list list"
  isUploading :: bool
  uploadProgress :: nat

definition initial_wav_session :: wav_session where
  "initial_wav_session =
     \<lparr>isRecording = False, isPlaying = False, recordingTime = 0, audioBlob = None,
      audioUrl = None, audioRef = None, streamRef = None, timerRef = None,
      intervals = [], liveStreams = [], objectUrls = [], nextId = 1,
      audioContextRef = None, sourceRef = None, processorRef = None, audioDataRef = [],
      isUploading = False, uploadProgress = 0\<rparr>"

text \<open>
  \<open>startRecording\<close> of revision 2; \<open>contextCreated\<close> tells whether
  \<open>new AudioContext({sampleRate: 44100})\<close> succeeded rather than threw.
\<close>

definition startRecording_wav ::
  "getUserMedia_result \<Rightarrow> bool \<Rightarrow> wav_session \<Rightarrow> wav_session \<times> effect list" where
  "startRecording_wav media contextCreated s =
     (case media of
        Rejected err \<Rightarrow>
          (s, [ConsoleError ''Error accessing microphone:'',
               Alert ''Unable to access microphone. Please check permissions.''])
      | Granted \<Rightarrow>
          (let stream = nextId s;
               s1 = s\<lparr>streamRef := Some stream, liveStreams := stream # liveStreams s,
                      nextId := Suc stream\<rparr>
           in if \<not> contextCreated
              then (s1, [ConsoleError ''Error accessing microphone:'',
                         Alert ''Unable to access microphone. Please check permissions.''])
              else (let timer = nextId s1
                    in (s1\<lparr>audioContextRef := Some True,
                            sourceRef := Some True,
                            processorRef := Some True,
                            audioDataRef := [],
                            isRecording := True,
                            recordingTime := 0,
                            timerRef := Some timer,
                            intervals := timer # intervals s1,
                            nextId := Suc timer\<rparr>, []))))"



text \<open>
  The loop \<open>for (const chunk of audioDataRef.current) { audioData.set(chunk, offset);
  offset += chunk.length }\<close>; \<open>set\<close> throws \<open>RangeError\<close> if the chunk does not fit.
\<close>

fun set_chunks :: "number list list \<Rightarrow> nat \<Rightarrow> number list \<Rightarrow> number list option" where
  "set_chunks [] offset audioData = Some audioData"
| "set_chunks (chunk # chunks) offset audioData =
     (if offset + length chunk \<le> length audioData
      then set_chunks chunks (offset + length chunk)
             (take offset audioData @ chunk @ drop (offset + length chunk) audioData)
      else None)"

definition disconnect :: "bool option \<Rightarrow> bool option" where
  "disconnect ref = (case ref of None \<Rightarrow> None | Some node \<Rightarrow> Some False)"

definition stopRecording_wav :: "wav_session \<Rightarrow> js_error + wav_session" where
  "stopRecording_wav s =
     (if isRecording s
      then (let s1 = s\<lparr>isRecording := False,
                        intervals := release (timerRef s) (intervals s),
                        processorRef := disconnect (processorRef s),
                        sourceRef := disconnect (sourceRef s),
                        audioContextRef := disconnect (audioContextRef s)\<rparr>
            in if length (audioDataRef s) > 0
               then (let totalLength = foldl (\<lambda>acc chunk. acc + length chunk) 0 (audioDataRef s)
                     in case set_chunks (audioDataRef s) 0 (replicate totalLength (Num 0)) of
                          None \<Rightarrow> Inl RangeError
                        | Some audioData \<Rightarrow>
                            (case encodeWAV audioData 44100 of
                               None \<Rightarrow> Inl RangeError
                             | Some wavBuffer \<Rightarrow>
                                 (let wavBlob = \<lparr>blob_data = wavBuffer, blob_type = ''audio/wav''\<rparr>;
                                      url = nextId s1
                                  in Inr (s1\<lparr>audioBlob := Some wavBlob,
                                              audioUrl := Some url,
                                              objectUrls := url # objectUrls s1,
                                              nextId := Suc url,
                                              liveStreams := release (streamRef s1) (liveStreams s1)\<rparr>))))
               else Inr (s1\<lparr>liveStreams := release (streamRef s1) (liveStreams s1)\<rparr>))
      else Inr s)"

text \<open>The effect cleanup of revision 2 also takes the audio graph down.\<close>

definition cleanup_wav :: "nat option \<Rightarrow> wav_session \<Rightarrow> wav_session" where
  "cleanup_wav closedUrl s =
     (cleanup closedUrl s)\<lparr>processorRef := disconnect (processorRef s),
                            sourceRef := disconnect (sourceRef s),
                            audioContextRef := disconnect (audioContextRef s)\<rparr>"

definition rerender_wav :: "wav_session \<Rightarrow> wav_session \<Rightarrow> wav_session" where
  "rerender_wav before after =
     mount (if audioUrl after \<noteq> audioUrl before then cleanup_wav (audioUrl before) after
            else after)"

text \<open>\<open>stop()\<close> in revision 2: the handler, and the render when it changed the state.\<close>

definition stop_wav :: "wav_session \<Rightarrow> js_error + wav_session" where
  "stop_wav s =
     (case stopRecording_wav s of
        Inl e \<Rightarrow> Inl e
      | Inr s1 \<Rightarrow> if isRecording s then Inr (rerender_wav s s1) else Inr s1)"

definition downloadAudio_wav :: "string \<Rightarrow> wav_session \<Rightarrow> string option" where
  "downloadAudio_wav isoString s =
     (case audioBlob s of
        None \<Rightarrow> None
      | Some blob \<Rightarrow>
          (case audioUrl s of
             None \<Rightarrow> None
           | Some url \<Rightarrow> Some (''recording-'' @ timestamp isoString @ ''.wav'')))"



section \<open>Properties of the WAV encoder\<close>

subsection \<open>The loops and the header, byte by byte\<close>

lemma js_truncate_of_int: "js_truncate (of_int i) = i"
  by (simp add: js_truncate_def)

lemma ToInt16_sint: "ToInt16 (Num (real_of_int (sint w))) = w"
  by (simp only: ToInt16.simps js_truncate_of_int) simp

lemma word_cat_int16_bytes:
  "word_cat (ucast (drop_bit 8 w) :: byte) (ucast w :: byte) = (w :: 16 word)"
  apply (rule bit_word_eqI)
  apply (simp add: bit_word_cat_iff bit_ucast_iff bit_drop_bit_eq)
  apply (auto simp: not_less)
  done

lemma Int16Array_bytes: "Int16Array (concat (map int16_bytes ws)) = Some ws"
  by (induction ws) (simp_all add: int16_bytes_def word_cat_int16_bytes)

lemma update2_splice:
  assumes "n + 2 \<le> length xs"
  shows "xs[n := a, n + 1 := b] = take n xs @ [a, b] @ drop (n + 2) xs"
proof -
  have 1: "xs[n := a] = take n xs @ a # drop (Suc n) xs"
    using assms by (simp add: upd_conv_take_nth_drop)
  have 2: "drop (Suc n) xs = xs ! Suc n # drop (Suc (Suc n)) xs"
    using assms by (simp add: Cons_nth_drop_Suc)
  have "xs[n := a, n + 1 := b] = take n xs @ (a # drop (Suc n) xs)[1 := b]"
    using assms by (simp add: 1 list_update_append)
  also have "\<dots> = take n xs @ [a, b] @ drop (n + 2) xs"
    by (simp add: 2)
  finally show ?thesis .
qed

lemma setInt16_splice:
  assumes "byteOffset + 2 \<le> length view"
  shows "setInt16 view byteOffset v =
         Some (take byteOffset view @ int16_bytes (ToInt16 v) @ drop (byteOffset + 2) view)"
  using assms update2_splice [OF assms]
  by (simp add: setInt16_def int16_bytes_def Let_def)

lemma floatTo16BitPCM_loop_splice:
  "offset + 2 * length xs \<le> length view \<Longrightarrow>
   floatTo16BitPCM_loop xs offset view =
     Some (take offset view @ concat (map (\<lambda>x. int16_bytes (ToInt16 (scale (clip x)))) xs)
           @ drop (offset + 2 * length xs) view)"
proof (induction xs arbitrary: offset view)
  case Nil
  then show ?case by simp
next
  case (Cons x xs)
  let ?b = "int16_bytes (ToInt16 (scale (clip x)))"
  let ?view' = "take offset view @ ?b @ drop (offset + 2) view"
  have len: "length ?b = 2" by (simp add: int16_bytes_def)
  have step: "setInt16 view offset (scale (clip x)) = Some ?view'"
    using Cons.prems by (intro setInt16_splice) simp
  have fits: "(offset + 2) + 2 * length xs \<le> length ?view'"
    using Cons.prems len by simp
  have t: "take (offset + 2) ?view' = take offset view @ ?b"
    using Cons.prems len by simp
  have d: "drop (offset + 2 + 2 * length xs) ?view' = drop (offset + 2 * length (x # xs)) view"
    using Cons.prems len by (simp add: add.commute add.left_commute)
  show ?case
    by (simp only: floatTo16BitPCM_loop.simps step Option.bind.simps Cons.IH [OF fits] t d)
       simp
qed

lemma floatTo16BitPCM_map:
  "floatTo16BitPCM xs = Some (map (\<lambda>x. ToInt16 (scale (clip x))) xs)"
proof -
  have "floatTo16BitPCM_loop xs 0 (ArrayBuffer (length xs * 2))
        = Some (concat (map (\<lambda>x. int16_bytes (ToInt16 (scale (clip x)))) xs))"
    using floatTo16BitPCM_loop_splice [of 0 xs "ArrayBuffer (length xs * 2)"]
    by (simp add: ArrayBuffer_def mult.commute)
  moreover have "concat (map (\<lambda>x. int16_bytes (ToInt16 (scale (clip x)))) xs)
        = concat (map int16_bytes (map (\<lambda>x. ToInt16 (scale (clip x))) xs))"
    by (simp add: comp_def)
  ultimately have "Int16Array (concat (map (\<lambda>x. int16_bytes (ToInt16 (scale (clip x)))) xs))
        = Some (map (\<lambda>x. ToInt16 (scale (clip x))) xs)"
    by (simp only: Int16Array_bytes)
  with \<open>floatTo16BitPCM_loop xs 0 (ArrayBuffer (length xs * 2)) = _\<close> show ?thesis
    by (simp only: floatTo16BitPCM_def Option.bind.simps)
qed

lemma encodeWAV_loop_splice:
  "44 + i * 2 + 2 * length ws \<le> length view \<Longrightarrow>
   encodeWAV_loop ws i view =
     Some (take (44 + i * 2) view @ concat (map int16_bytes ws)
           @ drop (44 + i * 2 + 2 * length ws) view)"
proof (induction ws arbitrary: i view)
  case Nil
  then show ?case by simp
next
  case (Cons w ws)
  let ?b = "int16_bytes w"
  let ?view' = "take (44 + i * 2) view @ ?b @ drop (44 + i * 2 + 2) view"
  have len: "length ?b = 2" by (simp add: int16_bytes_def)
  have "44 + i * 2 + 2 \<le> length view" using Cons.prems by simp
  from setInt16_splice [OF this, of "Num (real_of_int (sint w))"]
  have step: "setInt16 view (44 + i * 2) (Num (real_of_int (sint w))) = Some ?view'"
    by (simp only: ToInt16_sint)
  have fits: "44 + (i + 1) * 2 + 2 * length ws \<le> length ?view'"
    using Cons.prems len by simp
  have t: "take (44 + (i + 1) * 2) ?view' = take (44 + i * 2) view @ ?b"
    using Cons.prems len by simp
  have d: "drop (44 + (i + 1) * 2 + 2 * length ws) ?view'
           = drop (44 + i * 2 + 2 * length (w # ws)) view"
    using Cons.prems len by (simp add: add.commute add.left_commute)
  show ?case
    by (simp only: encodeWAV_loop.simps step Option.bind.simps Cons.IH [OF fits] t d)
       simp
qed


lemma zeros44: "replicate 44 (0::byte) =
  [0,0,0,0,0,0,0,0,0,0,0,0,0,0,0,0,0,0,0,0,0,0,0,0,0,0,0,0,0,0,0,0,0,0,0,0,0,0,0,0,0,0,0,0]"
  by (simp add: numeral_eq_Suc)

lemma length_wav_header: "length (wav_header len sampleRate) = 44"
  by (simp add: wav_header_def ascii_def uint16_bytes_def uint32_bytes_def)

lemma encodeWAV_header:
  "do {
        view \<leftarrow> writeString (ArrayBuffer (44 + len * 2)) 0 ''RIFF'';
        view \<leftarrow> setUint32 view 4 (36 + len * 2);
        view \<leftarrow> writeString view 8 ''WAVE'';
        view \<leftarrow> writeString view 12 ''fmt '';
        view \<leftarrow> setUint32 view 16 16;
        view \<leftarrow> setUint16 view 20 1;
        view \<leftarrow> setUint16 view 22 1;
        view \<leftarrow> setUint32 view 24 sampleRate;
        view \<leftarrow> setUint32 view 28 (sampleRate * 2);
        view \<leftarrow> setUint16 view 32 2;
        view \<leftarrow> setUint16 view 34 16;
        view \<leftarrow> writeString view 36 ''data'';
        view \<leftarrow> setUint32 view 40 (len * 2);
        f view
      } = f (wav_header len sampleRate @ replicate (len * 2) 0)"
proof -
  have z: "ArrayBuffer (44 + len * 2) = replicate 44 0 @ replicate (len * 2) 0"
    by (simp only: ArrayBuffer_def replicate_add)
  show ?thesis
    unfolding z zeros44
    by (simp add: setUint8_def setUint16_def setUint32_def list_update_append
        wav_header_def ascii_def uint16_bytes_def uint32_bytes_def)
qed

lemma encodeWAV_bytes:
  "encodeWAV samples sampleRate =
     Some (wav_header (length samples) sampleRate
           @ concat (map (\<lambda>x. int16_bytes (ToInt16 (scale (clip x)))) samples))"
proof -
  let ?n = "length samples"
  let ?view = "wav_header ?n sampleRate @ replicate (?n * 2) 0"
  let ?pcm = "map (\<lambda>x. ToInt16 (scale (clip x))) samples"
  have "encodeWAV samples sampleRate = encodeWAV_loop ?pcm 0 ?view"
    unfolding encodeWAV_def Let_def
    by (subst encodeWAV_header) (simp only: floatTo16BitPCM_map Option.bind.simps)
  also have "\<dots> = Some (take 44 ?view @ concat (map int16_bytes ?pcm) @ drop (44 + 2 * ?n) ?view)"
    using encodeWAV_loop_splice [of 0 ?pcm ?view] by (simp add: length_wav_header)
  also have "\<dots> = Some (wav_header ?n sampleRate @ concat (map int16_bytes ?pcm))"
    by (simp add: length_wav_header)
  finally show ?thesis by (simp add: comp_def)
qed

lemma length_payload:
  "length (concat (map (\<lambda>x. int16_bytes (ToInt16 (scale (clip x)))) samples)) = 2 * length samples"
  by (induction samples) (simp_all add: int16_bytes_def)

lemma mod_65536:
  "(v::nat) mod 65536 = v mod 256 + 256 * (v div 256 mod 256)"
  using mod_mult2_eq [of v 256 256] by simp

lemma mod_4294967296:
  "(v::nat) mod 4294967296 = v mod 256 + 256 * (v div 256 mod 256)
     + 65536 * (v div 65536 mod 256) + 16777216 * (v div 16777216 mod 256)"
proof -
  have "v mod 4294967296 = 65536 * (v div 65536 mod 65536) + v mod 65536"
    using mod_mult2_eq [of v 65536 65536] by simp
  moreover have "v div 65536 div 256 = v div 16777216"
    by (simp add: div_mult2_eq [symmetric])
  ultimately show ?thesis
    using mod_65536 [of v] mod_65536 [of "v div 65536"] by simp
qed

lemma uint32_value:
  "unat (of_nat v :: byte) + 256 * unat (of_nat (v div 256) :: byte)
   + 65536 * unat (of_nat (v div 65536) :: byte)
   + 16777216 * unat (of_nat (v div 16777216) :: byte) = v mod 4294967296"
  by (simp add: unat_of_nat mod_4294967296)

lemma uint16_value:
  "unat (of_nat v :: byte) + 256 * unat (of_nat (v div 256) :: byte) = v mod 65536"
  by (simp add: unat_of_nat mod_65536)

lemma getUint32_at:
  "length pre = byteOffset \<Longrightarrow>
   getUint32 (pre @ uint32_bytes v @ post) byteOffset = Some (v mod 4294967296)"
  using uint32_value [of v]
  by (simp add: getUint32_def uint32_bytes_def nth_append)

lemma getUint16_at:
  "length pre = byteOffset \<Longrightarrow>
   getUint16 (pre @ uint16_bytes v @ post) byteOffset = Some (v mod 65536)"
  using uint16_value [of v]
  by (simp add: getUint16_def uint16_bytes_def nth_append)

lemma length_field [simp]:
  "length (uint32_bytes v) = 4" "length (uint16_bytes v) = 2" "length (ascii str) = length str"
  by (simp_all add: uint32_bytes_def uint16_bytes_def ascii_def)

lemma field_at:
  "length pre = n \<Longrightarrow> length x = k \<Longrightarrow> take k (drop n (pre @ x @ post)) = x"
  by simp

lemma wav_header_fields:
  "getUint32 (wav_header len sampleRate @ payload) 4 = Some ((36 + len * 2) mod 4294967296)"
  "getUint32 (wav_header len sampleRate @ payload) 16 = Some (16 mod 4294967296)"
  "getUint16 (wav_header len sampleRate @ payload) 20 = Some (1 mod 65536)"
  "getUint16 (wav_header len sampleRate @ payload) 22 = Some (1 mod 65536)"
  "getUint32 (wav_header len sampleRate @ payload) 24 = Some (sampleRate mod 4294967296)"
  "getUint32 (wav_header len sampleRate @ payload) 28 = Some ((sampleRate * 2) mod 4294967296)"
  "getUint16 (wav_header len sampleRate @ payload) 32 = Some (2 mod 65536)"
  "getUint16 (wav_header len sampleRate @ payload) 34 = Some (16 mod 65536)"
  "getUint32 (wav_header len sampleRate @ payload) 40 = Some ((len * 2) mod 4294967296)"
proof -
  let ?R = "ascii ''RIFF''" and ?W = "ascii ''WAVE''" and ?F = "ascii ''fmt ''"
    and ?D = "ascii ''data''"
  let ?a = "uint32_bytes (36 + len * 2)" and ?b = "uint32_bytes 16" and ?c = "uint16_bytes 1"
    and ?d = "uint32_bytes sampleRate" and ?e = "uint32_bytes (sampleRate * 2)"
    and ?f = "uint16_bytes 2" and ?g = "uint16_bytes 16" and ?h = "uint32_bytes (len * 2)"
  let ?buf = "wav_header len sampleRate @ payload"
  have 1: "?buf = ?R @ ?a @ (?W @ ?F @ ?b @ ?c @ ?c @ ?d @ ?e @ ?f @ ?g @ ?D @ ?h @ payload)"
    by (simp only: wav_header_def append_assoc)
  show "getUint32 ?buf 4 = Some ((36 + len * 2) mod 4294967296)"
    by (subst 1, rule getUint32_at) simp
  have 2: "?buf = (?R @ ?a @ ?W @ ?F) @ ?b @ (?c @ ?c @ ?d @ ?e @ ?f @ ?g @ ?D @ ?h @ payload)"
    by (simp only: wav_header_def append_assoc)
  show "getUint32 ?buf 16 = Some (16 mod 4294967296)"
    by (subst 2, rule getUint32_at) simp
  have 3: "?buf = (?R @ ?a @ ?W @ ?F @ ?b) @ ?c @ (?c @ ?d @ ?e @ ?f @ ?g @ ?D @ ?h @ payload)"
    by (simp only: wav_header_def append_assoc)
  show "getUint16 ?buf 20 = Some (1 mod 65536)"
    by (subst 3, rule getUint16_at) simp
  have 4: "?buf = (?R @ ?a @ ?W @ ?F @ ?b @ ?c) @ ?c @ (?d @ ?e @ ?f @ ?g @ ?D @ ?h @ payload)"
    by (simp only: wav_header_def append_assoc)
  show "getUint16 ?buf 22 = Some (1 mod 65536)"
    by (subst 4, rule getUint16_at) simp
  have 5: "?buf = (?R @ ?a @ ?W @ ?F @ ?b @ ?c @ ?c) @ ?d @ (?e @ ?f @ ?g @ ?D @ ?h @ payload)"
    by (simp only: wav_header_def append_assoc)
  show "getUint32 ?buf 24 = Some (sampleRate mod 4294967296)"
    by (subst 5, rule getUint32_at) simp
  have 6: "?buf = (?R @ ?a @ ?W @ ?F @ ?b @ ?c @ ?c @ ?d) @ ?e @ (?f @ ?g @ ?D @ ?h @ payload)"
    by (simp only: wav_header_def append_assoc)
  show "getUint32 ?buf 28 = Some ((sampleRate * 2) mod 4294967296)"
    by (subst 6, rule getUint32_at) simp
  have 7: "?buf = (?R @ ?a @ ?W @ ?F @ ?b @ ?c @ ?c @ ?d @ ?e) @ ?f @ (?g @ ?D @ ?h @ payload)"
    by (simp only: wav_header_def append_assoc)
  show "getUint16 ?buf 32 = Some (2 mod 65536)"
    by (subst 7, rule getUint16_at) simp
  have 8: "?buf = (?R @ ?a @ ?W @ ?F @ ?b @ ?c @ ?c @ ?d @ ?e @ ?f) @ ?g @ (?D @ ?h @ payload)"
    by (simp only: wav_header_def append_assoc)
  show "getUint16 ?buf 34 = Some (16 mod 65536)"
    by (subst 8, rule getUint16_at) simp
  have 9: "?buf = (?R @ ?a @ ?W @ ?F @ ?b @ ?c @ ?c @ ?d @ ?e @ ?f @ ?g @ ?D) @ ?h @ payload"
    by (simp only: wav_header_def append_assoc)
  show "getUint32 ?buf 40 = Some ((len * 2) mod 4294967296)"
    by (subst 9, rule getUint32_at) simp
qed

lemma wav_header_tags:
  "take 4 (wav_header len sampleRate @ payload) = ascii ''RIFF''"
  "take 4 (drop 8 (wav_header len sampleRate @ payload)) = ascii ''WAVE''"
  "take 4 (drop 36 (wav_header len sampleRate @ payload)) = ascii ''data''"
proof -
  let ?R = "ascii ''RIFF''" and ?W = "ascii ''WAVE''" and ?F = "ascii ''fmt ''"
    and ?D = "ascii ''data''"
  let ?a = "uint32_bytes (36 + len * 2)" and ?b = "uint32_bytes 16" and ?c = "uint16_bytes 1"
    and ?d = "uint32_bytes sampleRate" and ?e = "uint32_bytes (sampleRate * 2)"
    and ?f = "uint16_bytes 2" and ?g = "uint16_bytes 16" and ?h = "uint32_bytes (len * 2)"
  let ?buf = "wav_header len sampleRate @ payload"
  have 1: "?buf = ?R @ (?a @ ?W @ ?F @ ?b @ ?c @ ?c @ ?d @ ?e @ ?f @ ?g @ ?D @ ?h @ payload)"
    by (simp only: wav_header_def append_assoc)
  show "take 4 ?buf = ?R"
    by (subst 1) simp
  have 2: "?buf = (?R @ ?a) @ ?W @ (?F @ ?b @ ?c @ ?c @ ?d @ ?e @ ?f @ ?g @ ?D @ ?h @ payload)"
    by (simp only: wav_header_def append_assoc)
  show "take 4 (drop 8 ?buf) = ?W"
    by (subst 2, rule field_at) simp_all
  have 3: "?buf = (?R @ ?a @ ?W @ ?F @ ?b @ ?c @ ?c @ ?d @ ?e @ ?f @ ?g) @ ?D @ (?h @ payload)"
    by (simp only: wav_header_def append_assoc)
  show "take 4 (drop 36 ?buf) = ?D"
    by (subst 3, rule field_at) simp_all
qed

subsection \<open>The quantizer, sample by sample\<close>

lemma js_truncate_mono: "a \<le> b \<Longrightarrow> js_truncate a \<le> js_truncate b"
proof -
  assume ab: "a \<le> b"
  show ?thesis
  proof (cases "b < 0")
    case True
    then show ?thesis using ab by (simp add: js_truncate_def ceiling_mono)
  next
    case b: False
    show ?thesis
    proof (cases "a < 0")
      case True
      then have "\<lceil>a\<rceil> \<le> 0" by (simp add: ceiling_le_iff)
      moreover have "0 \<le> \<lfloor>b\<rfloor>" using b by simp
      ultimately have "\<lceil>a\<rceil> \<le> \<lfloor>b\<rfloor>" by linarith
      then show ?thesis using True b by (simp add: js_truncate_def)
    next
      case False
      then show ?thesis using b ab by (simp add: js_truncate_def floor_mono)
    qed
  qed
qed

lemma js_truncate_int16:
  assumes "- 32768 \<le> v" "v \<le> 32767"
  shows "- 32768 \<le> js_truncate v \<and> js_truncate v \<le> 32767"
proof -
  have "js_truncate (- 32768) \<le> js_truncate v" "js_truncate v \<le> js_truncate 32767"
    using assms by (simp_all only: js_truncate_mono)
  then show ?thesis by (simp add: js_truncate_def)
qed

lemma sint_ToInt16:
  assumes "- 32768 \<le> v" "v \<le> 32767"
  shows "sint (ToInt16 (Num v)) = js_truncate v"
proof -
  have "- 32768 \<le> js_truncate v" "js_truncate v < 32768"
    using js_truncate_int16 [OF assms] by simp_all
  then show ?thesis
    by (simp add: sint_sbintrunc' signed_take_bit_int_eq_self)
qed

lemma clip_cases:
  "clip (Num a) = Num (max (- 1) (min 1 a))"
  "clip PosInf = Num 1" "clip NegInf = Num (- 1)" "clip NaN = NaN"
  by (simp_all add: clip_def)

lemma scale_Num: "scale (Num s) = Num (if s < 0 then s * 32768 else s * 32767)"
  by (simp add: scale_def)

lemma scaled_range:
  assumes "- 1 \<le> c" "c \<le> 1"
  shows "- 32768 \<le> (if c < 0 then c * 32768 else c * 32767)"
    and "(if c < 0 then c * 32768 else c * 32767) \<le> (32767::real)"
  using assms by (auto)

lemma scaled_mono:
  fixes c d :: real
  assumes "c \<le> d"
  shows "(if c < 0 then c * 32768 else c * 32767) \<le> (if d < 0 then d * 32768 else d * 32767)"
proof -
  consider "d < 0" | "c < 0" "0 \<le> d" | "0 \<le> c" using assms by linarith
  then show ?thesis
  proof cases
    case 1 then show ?thesis using assms by simp
  next
    case 2
    then have "c * 32768 \<le> 0" "0 \<le> d * 32767" by simp_all
    then show ?thesis using 2 by simp
  next
    case 3 then show ?thesis using assms by simp
  qed
qed

lemma pcm_sample_clipped:
  assumes "clip x = Num c"
  shows "- 1 \<le> c \<and> c \<le> 1 \<and> pcm_sample x = js_truncate (if c < 0 then c * 32768 else c * 32767)"
proof -
  have r: "- 1 \<le> c \<and> c \<le> 1"
    using assms by (cases x) (auto simp: clip_def)
  have "sint (ToInt16 (Num (if c < 0 then c * 32768 else c * 32767)))
        = js_truncate (if c < 0 then c * 32768 else c * 32767)"
    using r by (intro sint_ToInt16 scaled_range) simp_all
  then show ?thesis
    using r by (simp only: pcm_sample_def assms scale_Num)
qed

lemma pcm_sample_NaN: "pcm_sample NaN = 0"
  by (simp add: pcm_sample_def clip_def scale_def)

lemma clip_not_NaN: "x \<noteq> NaN \<Longrightarrow> \<exists>c. clip x = Num c"
  by (cases x) (simp_all add: clip_def)

lemma clip_le: "number_le x y \<Longrightarrow> \<exists>c d. clip x = Num c \<and> clip y = Num d \<and> c \<le> d"
  by (cases x; cases y) (auto simp: clip_def)

lemma pcm_sample_mono:
  assumes "number_le x y"
  shows "pcm_sample x \<le> pcm_sample y"
proof -
  from clip_le [OF assms] obtain c d where cd: "clip x = Num c" "clip y = Num d" "c \<le> d"
    by blast
  show ?thesis
    using pcm_sample_clipped [OF cd(1)] pcm_sample_clipped [OF cd(2)]
      js_truncate_mono [OF scaled_mono [OF cd(3)]]
    by simp
qed

lemma pcm_sample_values:
  "pcm_sample (Num 1) = 32767" "pcm_sample (Num (- 1)) = - 32768" "pcm_sample (Num 0) = 0"
  using pcm_sample_clipped [of "Num 1" 1] pcm_sample_clipped [of "Num (- 1)" "- 1"]
    pcm_sample_clipped [of "Num 0" 0]
  by (simp_all add: clip_def js_truncate_def)

lemma pcm_sample_range: "- 32768 \<le> pcm_sample x \<and> pcm_sample x \<le> 32767"
proof (cases "x = NaN")
  case True
  then show ?thesis by (simp add: pcm_sample_NaN)
next
  case False
  then obtain c where c: "clip x = Num c" using clip_not_NaN by blast
  from pcm_sample_clipped [OF c] scaled_range [of c] js_truncate_int16
  show ?thesis by simp
qed

lemma floatTo16BitPCM_values:
  "map_option (map sint) (floatTo16BitPCM xs) = Some (map pcm_sample xs)"
  by (simp add: floatTo16BitPCM_map pcm_sample_def comp_def)

lemma scale_clip_cases:
  "scale (clip x) = NaN
   \<or> (\<exists>v. scale (clip x) = Num v \<and> - 32768 \<le> v \<and> v \<le> 32767 \<and> pcm_sample x = js_truncate v)"
proof (cases "x = NaN")
  case True
  then show ?thesis by (simp add: clip_def scale_def)
next
  case False
  then obtain c where c: "clip x = Num c" using clip_not_NaN by blast
  let ?v = "if c < 0 then c * 32768 else c * 32767"
  have "scale (clip x) = Num ?v" by (simp only: c scale_Num)
  moreover have "- 32768 \<le> ?v" "?v \<le> 32767" "pcm_sample x = js_truncate ?v"
    using pcm_sample_clipped [OF c] scaled_range [of c] by simp_all
  ultimately show ?thesis by blast
qed


section \<open>Properties of the recording session\<close>

lemma startsWith_iff: "startsWith s p \<longleftrightarrow> (\<exists>b. s = p @ b)"
  by (induction s p rule: startsWith.induct) auto

lemma String_includes_iff: "String_includes s p \<longleftrightarrow> (\<exists>a b. s = a @ p @ b)"
proof (induction s)
  case Nil
  then show ?case by auto
next
  case (Cons c cs)
  show ?case
  proof
    assume "String_includes (c # cs) p"
    then consider "startsWith (c # cs) p" | "String_includes cs p" by auto
    then show "\<exists>a b. c # cs = a @ p @ b"
    proof cases
      case 1
      then obtain b where "c # cs = p @ b" using startsWith_iff by blast
      then have "c # cs = [] @ p @ b" by simp
      then show ?thesis by blast
    next
      case 2
      then obtain a b where "cs = a @ p @ b" using Cons.IH by blast
      then have "c # cs = (c # a) @ p @ b" by simp
      then show ?thesis by blast
    qed
  next
    assume "\<exists>a b. c # cs = a @ p @ b"
    then obtain a b where ab: "c # cs = a @ p @ b" by blast
    show "String_includes (c # cs) p"
    proof (cases a)
      case Nil
      then have "startsWith (c # cs) p" using ab startsWith_iff by auto
      then show ?thesis by simp
    next
      case (Cons x a')
      then have "cs = a' @ p @ b" using ab by simp
      then have "String_includes cs p" using Cons.IH by blast
      then show ?thesis by simp
    qed
  qed
qed

lemma blob_size_new_Blob: "blob_size (new_Blob parts ty) = sum_list (map blob_size parts)"
  by (induction parts) (simp_all add: blob_size_def new_Blob_def)

lemma blob_data_new_Blob:
  "blob_data (new_Blob parts ty) = concat (map blob_data parts)"
  "blob_type (new_Blob parts ty) = ty"
  by (simp_all add: new_Blob_def)

lemma concat_nonempty:
  "concat (map blob_data (filter (\<lambda>d. 0 < blob_size d) chunks)) = concat (map blob_data chunks)"
  by (induction chunks) (simp_all add: blob_size_def)

lemma sum_list_nonempty:
  "sum_list (map blob_size (filter (\<lambda>d. 0 < blob_size d) chunks)) = sum_list (map blob_size chunks)"
  by (induction chunks) simp_all

lemma deliver_eq:
  "deliver chunks s = s\<lparr>chunksRef := chunksRef s @ filter (\<lambda>d. 0 < blob_size d) chunks\<rparr>"
  unfolding deliver_def
  by (induction chunks arbitrary: s) (simp_all add: ondataavailable_def)

lemma mount_eq:
  "mount s = s\<lparr>audioRef := (case audioUrl s of
                               None \<Rightarrow> None
                             | Some url \<Rightarrow>
                                 (case audioRef s of
                                    None \<Rightarrow> Some \<lparr>paused = True, currentTime = 0\<rparr>
                                  | Some a \<Rightarrow> Some a))\<rparr>"
  by (simp add: mount_def split: option.split)

lemma rerender_fields:
  "isRecording (rerender before after) = isRecording after"
  "isPlaying (rerender before after) = isPlaying after"
  "recordingTime (rerender before after) = recordingTime after"
  "audioBlob (rerender before after) = audioBlob after"
  "audioUrl (rerender before after) = audioUrl after"
  "recorder.more (rerender before after) = recorder.more after"
  by (simp_all add: rerender_def cleanup_def mount_eq)

lemma rerender_session_fields:
  "mediaRecorderRef (rerender before after) = mediaRecorderRef after"
  "chunksRef (rerender before after) = chunksRef after"
  by (simp_all add: rerender_def cleanup_def mount_eq)

lemma stopRecording_recording:
  assumes "isRecording s" "mediaRecorderRef s = Some r" "recording r"
  shows "stopRecording s = Inr (s\<lparr>mediaRecorderRef := Some (r\<lparr>recording := False\<rparr>),
                                  isRecording := False,
                                  intervals := release (timerRef s) (intervals s)\<rparr>)"
  using assms by (simp add: stopRecording_def)

lemma stop_recording:
  assumes "isRecording s" "mediaRecorderRef s = Some r" "recording r"
  shows "\<exists>s'. stop final s = Inr s'
           \<and> audioBlob s' = Some (new_Blob (chunksRef s @ filter (\<lambda>d. 0 < blob_size d) [final])
                                     (recorder_mimeType r))
           \<and> audioUrl s' = Some (nextId s)
           \<and> \<not> isRecording s'
           \<and> mediaRecorderRef s' = Some (r\<lparr>recording := False\<rparr>)"
proof -
  let ?s1 = "s\<lparr>mediaRecorderRef := Some (r\<lparr>recording := False\<rparr>),
               isRecording := False,
               intervals := release (timerRef s) (intervals s)\<rparr>"
  let ?s3 = "onstop (recorder_mimeType r) (ondataavailable final ?s1)"
  have st: "stop final s = Inr (rerender s ?s3)"
    using assms by (simp only: stop_def stopRecording_recording [OF assms]) simp
  have f: "audioBlob ?s3 = Some (new_Blob (chunksRef s @ filter (\<lambda>d. 0 < blob_size d) [final])
                                     (recorder_mimeType r))"
    "audioUrl ?s3 = Some (nextId s)" "\<not> isRecording ?s3"
    "mediaRecorderRef ?s3 = Some (r\<lparr>recording := False\<rparr>)"
    by (simp_all add: onstop_def ondataavailable_def Let_def)
  show ?thesis
    apply (rule exI [of _ "rerender s ?s3"])
    apply (simp only: rerender_fields rerender_session_fields f st)
    apply simp
    done
qed

lemma stop_not_recording: "\<not> isRecording s \<Longrightarrow> stopRecording s = Inr s \<and> stop final s = Inr s"
  by (simp add: stop_def stopRecording_def split: option.split)

lemma startRecording_Granted:
  assumes "isTypeSupported (getSupportedMimeType isTypeSupported)"
  shows "\<exists>s'. fst (startRecording Granted isTypeSupported now s) = s'
           \<and> isRecording s' \<and> chunksRef s' = []
           \<and> mediaRecorderRef s'
               = Some \<lparr>recorder_mimeType = getSupportedMimeType isTypeSupported, recording = True\<rparr>
           \<and> audioBlob s' = audioBlob s \<and> audioUrl s' = audioUrl s"
  using assms by (simp add: startRecording_def Let_def)

lemma session_state_Stopped:
  "\<not> isRecording s \<Longrightarrow> audioUrl s = Some url \<Longrightarrow> session_state s = Stopped"
  by (simp add: session_state_def)

lemma stop_after_start:
  assumes sup: "isTypeSupported (getSupportedMimeType isTypeSupported)"
  shows "\<exists>s'. stop final (deliver chunks (fst (startRecording Granted isTypeSupported now s0))) = Inr s'
           \<and> audioBlob s' = Some (new_Blob (filter (\<lambda>d. 0 < blob_size d) (chunks @ [final]))
                                     (getSupportedMimeType isTypeSupported))
           \<and> session_state s' = Stopped"
proof -
  let ?mime = "getSupportedMimeType isTypeSupported"
  let ?r = "\<lparr>recorder_mimeType = ?mime, recording = True\<rparr>"
  let ?s1 = "fst (startRecording Granted isTypeSupported now s0)"
  let ?s2 = "deliver chunks ?s1"
  from startRecording_Granted [of isTypeSupported now s0] sup
  have s1: "isRecording ?s1" "chunksRef ?s1 = []" "mediaRecorderRef ?s1 = Some ?r"
    by simp_all
  have s2: "isRecording ?s2" "mediaRecorderRef ?s2 = Some ?r" "recording ?r"
    "chunksRef ?s2 = filter (\<lambda>d. 0 < blob_size d) chunks"
    using s1 by (simp_all add: deliver_eq)
  from stop_recording [OF s2(1-3), of final]
  obtain s' where s': "stop final ?s2 = Inr s'"
      "audioBlob s' = Some (new_Blob (chunksRef ?s2 @ filter (\<lambda>d. 0 < blob_size d) [final])
                              (recorder_mimeType ?r))"
      "audioUrl s' = Some (nextId ?s2)" "\<not> isRecording s'"
    by blast
  have "audioBlob s' = Some (new_Blob (filter (\<lambda>d. 0 < blob_size d) (chunks @ [final])) ?mime)"
    using s'(2) by (simp only: s2(4) filter_append) simp
  then show ?thesis
    using s'(1) session_state_Stopped [OF s'(4) s'(3)] by blast
qed

lemma stop_after_start_bytes:
  assumes sup: "isTypeSupported (getSupportedMimeType isTypeSupported)"
  shows "\<exists>s'. stop final (deliver chunks (fst (startRecording Granted isTypeSupported now s0))) = Inr s'
           \<and> audioBlob s' = Some (new_Blob (filter (\<lambda>d. 0 < blob_size d) (chunks @ [final]))
                                     (getSupportedMimeType isTypeSupported))
           \<and> map_option blob_data (audioBlob s') = Some (concat (map blob_data (chunks @ [final])))
           \<and> map_option blob_type (audioBlob s') = Some (getSupportedMimeType isTypeSupported)
           \<and> map_option blob_size (audioBlob s') = Some (sum_list (map blob_size (chunks @ [final])))
           \<and> session_state s' = Stopped"
proof -
  from stop_after_start [of isTypeSupported final chunks now s0] sup
  obtain s' where s': "stop final (deliver chunks (fst (startRecording Granted isTypeSupported now s0))) = Inr s'"
    "audioBlob s' = Some (new_Blob (filter (\<lambda>d. 0 < blob_size d) (chunks @ [final]))
                                     (getSupportedMimeType isTypeSupported))"
    "session_state s' = Stopped"
    by blast
  have "map_option blob_data (audioBlob s') = Some (concat (map blob_data (chunks @ [final])))"
    by (simp only: s'(2) option.map blob_data_new_Blob concat_nonempty)
  moreover have "map_option blob_type (audioBlob s') = Some (getSupportedMimeType isTypeSupported)"
    by (simp only: s'(2) option.map blob_data_new_Blob)
  moreover have "map_option blob_size (audioBlob s') = Some (sum_list (map blob_size (chunks @ [final])))"
    by (simp only: s'(2) option.map blob_size_new_Blob sum_list_nonempty)
  ultimately show ?thesis using s' by blast
qed


lemma stop_wav_not_recording:
  "\<not> isRecording w \<Longrightarrow> stopRecording_wav w = Inr w \<and> stop_wav w = Inr w"
  by (simp add: stop_wav_def stopRecording_wav_def)

lemma not_Recording_iff: "session_state s \<noteq> Recording \<longleftrightarrow> \<not> isRecording s"
  by (simp add: session_state_def)

lemma extension_cases:
  "String_includes t ''mp4'' \<Longrightarrow> extension t = ''m4a''"
  "\<not> String_includes t ''mp4'' \<Longrightarrow> String_includes t ''webm'' \<Longrightarrow> extension t = ''webm''"
  "\<not> String_includes t ''mp4'' \<Longrightarrow> \<not> String_includes t ''webm'' \<Longrightarrow> String_includes t ''ogg''
     \<Longrightarrow> extension t = ''ogg''"
  "\<not> String_includes t ''mp4'' \<Longrightarrow> \<not> String_includes t ''webm'' \<Longrightarrow> \<not> String_includes t ''ogg''
     \<Longrightarrow> String_includes t ''wav'' \<Longrightarrow> extension t = ''wav''"
  "\<not> String_includes t ''mp4'' \<Longrightarrow> \<not> String_includes t ''webm'' \<Longrightarrow> \<not> String_includes t ''ogg''
     \<Longrightarrow> \<not> String_includes t ''wav'' \<Longrightarrow> extension t = ''mp3''"
  by (simp_all add: extension_def)

lemma extension_values:
  \<open>map extension [''audio/mp4; codecs="mp4a.40.2"'', ''audio/webm; codecs=opus'', ''audio/webm'',
      ''audio/mp4'', ''audio/ogg; codecs=opus'', ''audio/ogg'', ''audio/wav'']
   = [''m4a'', ''webm'', ''webm'', ''m4a'', ''ogg'', ''ogg'', ''wav'']\<close>
  by (simp add: extension_def)


lemma transcribeAudio_not_ok:
  assumes "audioBlob s = Some blob" "\<not> ok status"
  shows "transcriptError (transcribeAudio (Response status (Json (Some detail) transcribed)) s)
           = Some (if detail = [] then ''Transcription failed'' else detail)"
    and "transcript (transcribeAudio (Response status (Json (Some detail) transcribed)) s) = None"
    and "\<not> isTranscribing (transcribeAudio (Response status (Json (Some detail) transcribed)) s)"
  using assms by (simp_all add: transcribeAudio_def Let_def)

lemma transcribeAudio_ok:
  assumes "audioBlob s = Some blob" "ok status"
  shows "transcript (transcribeAudio (Response status (Json detail transcribed)) s) = transcribed"
  using assms by (simp add: transcribeAudio_def Let_def)

lemma release_removes: "h \<notin> set (release (Some h) handles)"
  by (simp add: release_def)

lemma reset_fields:
  "isRecording (reset s) = False" "isPlaying (reset s) = False" "recordingTime (reset s) = 0"
  "audioBlob (reset s) = None" "audioUrl (reset s) = None"
  "chunksRef (reset s) = chunksRef s" "mediaRecorderRef (reset s) = mediaRecorderRef s"
  by (simp_all add: reset_def rerender_fields rerender_session_fields resetRecording_def)

lemma reset_unmounts: "audioRef (reset s) = None"
  by (simp add: reset_def rerender_def mount_eq cleanup_def resetRecording_def)

lemma reset_revokes: "audioUrl s = Some url \<Longrightarrow> url \<notin> set (objectUrls (reset s))"
  by (simp add: reset_def rerender_def mount_eq cleanup_def resetRecording_def release_def)

lemma resetRecording_pauses:
  "audioRef (resetRecording s) = map_option (\<lambda>a. a\<lparr>paused := True, currentTime := 0\<rparr>) (audioRef s)"
  by (simp add: resetRecording_def split: option.split)

subsection \<open>Invariants of the reachable states, and the WAV path\<close>





lemma togglePlayback_session_fields:
  "mediaRecorderRef (togglePlayback s) = mediaRecorderRef s"
  by (simp add: togglePlayback_def split: option.split)





lemma reachable_deliver: "reachable s \<Longrightarrow> reachable (deliver chunks s)"
  unfolding deliver_def
  by (induction chunks arbitrary: s) (simp_all add: reachable.data)


lemma reachable_reset: "reachable s \<Longrightarrow> reachable (reset s)"
  unfolding reset_def
  by (rule reachable.render) (simp_all add: reachable.again)















section \<open>The claims\<close>

text \<open>
  C1 (as amended). For every sequence of \<open>N\<close> sample frames, \<open>encodeWAV\<close> called
  with the sample rate 44100 returns a buffer of exactly \<open>44 + 2N\<close> bytes whose bytes
  [0..4) spell "RIFF", bytes [8..12) spell "WAVE" and bytes [36..40) spell "data"; the
  RIFF chunk-size field (offset 4) holds \<open>(36 + 2N) mod 2^32\<close> and the data-chunk-size
  field (offset 40) holds \<open>2N mod 2^32\<close>, which are \<open>36 + 2N\<close> and \<open>2N\<close> whenever
  \<open>36 + 2N < 2^32\<close>; the header declares format tag 1 (PCM), 1 channel, sample rate
  44100, block align 2 and 16 bits per sample. No write leaves the buffer: the encoder
  never throws.
\<close>

theorem encodeWAV_layout:
  "\<exists>buffer. encodeWAV samples 44100 = Some buffer
     \<and> length buffer = 44 + 2 * length samples
     \<and> take 4 buffer = ascii ''RIFF''
     \<and> take 4 (drop 8 buffer) = ascii ''WAVE''
     \<and> take 4 (drop 36 buffer) = ascii ''data''
     \<and> getUint32 buffer 4 = Some ((36 + 2 * length samples) mod 2 ^ 32)
     \<and> getUint32 buffer 40 = Some ((2 * length samples) mod 2 ^ 32)
     \<and> getUint16 buffer 20 = Some 1
     \<and> getUint16 buffer 22 = Some 1
     \<and> getUint32 buffer 24 = Some 44100
     \<and> getUint16 buffer 32 = Some 2
     \<and> getUint16 buffer 34 = Some 16"
proof -
  let ?n = "length samples"
  let ?payload = "concat (map (\<lambda>x. int16_bytes (ToInt16 (scale (clip x)))) samples)"
  let ?buffer = "wav_header ?n 44100 @ ?payload"
  have enc: "encodeWAV samples 44100 = Some ?buffer"
    by (rule encodeWAV_bytes)
  have len: "length ?buffer = 44 + 2 * ?n"
    by (simp only: length_append length_wav_header length_payload)
  have riff: "getUint32 ?buffer 4 = Some ((36 + 2 * ?n) mod 2 ^ 32)"
    by (simp only: wav_header_fields) (simp add: mult.commute)
  have data: "getUint32 ?buffer 40 = Some ((2 * ?n) mod 2 ^ 32)"
    by (simp only: wav_header_fields) (simp add: mult.commute)
  have fmt: "getUint16 ?buffer 20 = Some 1" "getUint16 ?buffer 22 = Some 1"
    "getUint32 ?buffer 24 = Some 44100" "getUint16 ?buffer 32 = Some 2"
    "getUint16 ?buffer 34 = Some 16"
    by (simp_all only: wav_header_fields) simp_all
  show ?thesis
    using enc len riff data fmt wav_header_tags [of ?n 44100 ?payload] by blast
qed

text \<open>
  C1 as stated, with the chunk-size field equal to \<open>36 + 2N\<close> for every \<open>N\<close>, fails
  where the size no longer fits the 32-bit field: \<open>N = 2147483630\<close> samples give
  \<open>36 + 2N = 2^32\<close>, and \<open>setUint32\<close> stores 0.
\<close>

theorem encodeWAV_chunk_size_wraps:
  "getUint32 (the (encodeWAV (replicate 2147483630 (Num 0)) 44100)) 4 = Some 0
   \<and> 36 + 2 * length (replicate 2147483630 (Num 0)) = (4294967296 :: nat)"
proof -
  let ?samples = "replicate 2147483630 (Num 0)"
  have n: "length ?samples = 2147483630"
    by (rule length_replicate)
  have "getUint32 (the (encodeWAV ?samples 44100)) 4 = Some ((36 + length ?samples * 2) mod 4294967296)"
    by (simp only: encodeWAV_bytes option.sel wav_header_fields)
  also have "\<dots> = Some 0"
    unfolding n by simp
  finally show ?thesis
    unfolding n by simp
qed

text \<open>
  C2 (as amended). \<open>floatTo16BitPCM\<close> clips every input sample other than NaN to
  \<open>[-1, 1]\<close> (an infinity goes to the nearer bound; NaN is not clipped and is stored
  as 0), scales a negative clipped sample by 32768 and a non-negative one by 32767 and
  stores the product truncated towards zero. The stored value is monotonic: for inputs
  \<open>x \<le> y\<close> the value stored for \<open>x\<close> is at most the one stored for \<open>y\<close>. Input
  1.0 is stored as 32767, input -1.0 as -32768 and input 0 as 0.
\<close>

theorem floatTo16BitPCM_quantization:
  "(x \<noteq> NaN \<longrightarrow>
      (\<exists>c. clip x = Num c \<and> - 1 \<le> c \<and> c \<le> 1
           \<and> pcm_sample x = js_truncate (if c < 0 then c * 32768 else c * 32767)))
   \<and> clip (Num a) = Num (max (- 1) (min 1 a))
   \<and> clip PosInf = Num 1 \<and> clip NegInf = Num (- 1)
   \<and> clip NaN = NaN \<and> pcm_sample NaN = 0
   \<and> (number_le x y \<longrightarrow> pcm_sample x \<le> pcm_sample y)
   \<and> pcm_sample (Num 1) = 32767 \<and> pcm_sample (Num (- 1)) = - 32768 \<and> pcm_sample (Num 0) = 0
   \<and> map_option (map sint) (floatTo16BitPCM xs) = Some (map pcm_sample xs)"
proof -
  have "x \<noteq> NaN \<longrightarrow>
      (\<exists>c. clip x = Num c \<and> - 1 \<le> c \<and> c \<le> 1
           \<and> pcm_sample x = js_truncate (if c < 0 then c * 32768 else c * 32767))"
    using clip_not_NaN [of x] pcm_sample_clipped [of x] by blast
  moreover have "number_le x y \<longrightarrow> pcm_sample x \<le> pcm_sample y"
    using pcm_sample_mono by blast
  ultimately show ?thesis
    by (simp only: clip_cases pcm_sample_NaN pcm_sample_values floatTo16BitPCM_values)
qed

theorem floatTo16BitPCM_quantization_witness:
  "Num (- (1 / 2)) \<noteq> NaN \<and> number_le (Num (- (1 / 2))) (Num 2)
   \<and> clip (Num (- (1 / 2))) = Num (- (1 / 2)) \<and> clip (Num 2) = Num 1
   \<and> pcm_sample (Num (- (1 / 2))) = - 16384 \<and> pcm_sample (Num 2) = 32767
   \<and> pcm_sample (Num (- (1 / 2))) \<le> pcm_sample (Num 2)
   \<and> map_option (map sint) (floatTo16BitPCM [Num (- (1 / 2)), Num 2]) = Some [- 16384, 32767]"
proof -
  have c: "clip (Num (- (1 / 2))) = Num (- (1 / 2))" "clip (Num 2) = Num 1"
    by (simp_all add: clip_def)
  have v: "pcm_sample (Num (- (1 / 2))) = - 16384" "pcm_sample (Num 2) = 32767"
    by (simp_all add: pcm_sample_def c scale_def js_truncate_def)
  show ?thesis
    using floatTo16BitPCM_quantization [of "Num (- (1 / 2))" "- (1 / 2)" "Num 2" "[Num (- (1 / 2)), Num 2]"]
    by (simp add: c v)
qed

text \<open>
  C2 as stated, with every input sample clipped to \<open>[-1, 1]\<close>, fails on NaN:
  \<open>Math.min\<close> and \<open>Math.max\<close> pass it on, so the clipped value is NaN, which is
  neither at least -1 nor at most 1.
\<close>

theorem clip_NaN_not_clipped:
  "clip NaN = NaN \<and> \<not> number_le (Num (- 1)) (clip NaN) \<and> \<not> number_le (clip NaN) (Num 1)"
  by (simp add: clip_def)


text \<open>
  C10. For every input sample value, also outside \<open>[-1, 1]\<close>, infinite or NaN, the
  quantizer stores a value in the signed 16-bit range \<open>[-32768, 32767]\<close>: the number
  handed to \<open>setInt16\<close> is NaN (stored as 0) or lies in that range already, so the
  conversion to 16 bits never wraps. The output has exactly one 16-bit sample for each
  input sample.
\<close>

theorem floatTo16BitPCM_int16_range:
  "(\<exists>pcm. floatTo16BitPCM xs = Some pcm \<and> length pcm = length xs
          \<and> map sint pcm = map pcm_sample xs)
   \<and> - 32768 \<le> pcm_sample x \<and> pcm_sample x \<le> 32767
   \<and> (scale (clip x) = NaN
      \<or> (\<exists>v. scale (clip x) = Num v \<and> - 32768 \<le> v \<and> v \<le> 32767
              \<and> pcm_sample x = js_truncate v))"
proof -
  have "\<exists>pcm. floatTo16BitPCM xs = Some pcm \<and> length pcm = length xs
          \<and> map sint pcm = map pcm_sample xs"
    by (simp add: floatTo16BitPCM_map pcm_sample_def)
  then show ?thesis
    using pcm_sample_range [of x] scale_clip_cases [of x] by blast
qed

text \<open>
  C3. While recording, the data callback appends exactly the non-empty delivered chunks
  to \<open>chunksRef\<close>, in arrival order; empty chunks are dropped. On \<open>stop()\<close> after a
  successful start the artifact is the concatenation of the chunks delivered, the one the
  recorder hands over on stopping included: its bytes are the bytes of the chunks one
  after the other, its media type is the one chosen at the start, its byte length is the
  sum of the chunk sizes, and the state is Stopped. In particular three chunks of 10, 20
  and 15 bytes (and nothing more on stopping) give an artifact of those 45 bytes.
\<close>

theorem recording_concatenates_chunks:
  "chunksRef (deliver chunks s) = chunksRef s @ filter (\<lambda>d. 0 < blob_size d) chunks
   \<and> (isTypeSupported (getSupportedMimeType isTypeSupported) \<longrightarrow>
        (\<exists>s'. stop final (deliver chunks (fst (startRecording Granted isTypeSupported now s0))) = Inr s'
           \<and> audioBlob s' = Some (new_Blob (filter (\<lambda>d. 0 < blob_size d) (chunks @ [final]))
                                     (getSupportedMimeType isTypeSupported))
           \<and> map_option blob_data (audioBlob s') = Some (concat (map blob_data (chunks @ [final])))
           \<and> map_option blob_type (audioBlob s') = Some (getSupportedMimeType isTypeSupported)
           \<and> map_option blob_size (audioBlob s') = Some (sum_list (map blob_size (chunks @ [final])))
           \<and> session_state s' = Stopped))
   \<and> (isTypeSupported (getSupportedMimeType isTypeSupported)
        \<and> blob_size c1 = 10 \<and> blob_size c2 = 20 \<and> blob_size c3 = 15 \<and> blob_size final = 0 \<longrightarrow>
        (\<exists>s'. stop final (deliver [c1, c2, c3] (fst (startRecording Granted isTypeSupported now s0))) = Inr s'
           \<and> map_option blob_data (audioBlob s') = Some (blob_data c1 @ blob_data c2 @ blob_data c3)
           \<and> map_option blob_size (audioBlob s') = Some 45
           \<and> session_state s' = Stopped))"
proof -
  have 1: "chunksRef (deliver chunks s) = chunksRef s @ filter (\<lambda>d. 0 < blob_size d) chunks"
    by (simp add: deliver_eq)
  have 2: "\<exists>s'. stop final (deliver chunks (fst (startRecording Granted isTypeSupported now s0))) = Inr s'
           \<and> audioBlob s' = Some (new_Blob (filter (\<lambda>d. 0 < blob_size d) (chunks @ [final]))
                                     (getSupportedMimeType isTypeSupported))
           \<and> map_option blob_data (audioBlob s') = Some (concat (map blob_data (chunks @ [final])))
           \<and> map_option blob_type (audioBlob s') = Some (getSupportedMimeType isTypeSupported)
           \<and> map_option blob_size (audioBlob s') = Some (sum_list (map blob_size (chunks @ [final])))
           \<and> session_state s' = Stopped"
    if "isTypeSupported (getSupportedMimeType isTypeSupported)"
    using that by (rule stop_after_start_bytes)
  have 3: "\<exists>s'. stop final (deliver [c1, c2, c3] (fst (startRecording Granted isTypeSupported now s0))) = Inr s'
           \<and> map_option blob_data (audioBlob s') = Some (blob_data c1 @ blob_data c2 @ blob_data c3)
           \<and> map_option blob_size (audioBlob s') = Some 45
           \<and> session_state s' = Stopped"
    if a: "isTypeSupported (getSupportedMimeType isTypeSupported)
        \<and> blob_size c1 = 10 \<and> blob_size c2 = 20 \<and> blob_size c3 = 15 \<and> blob_size final = 0"
  proof -
    have sup: "isTypeSupported (getSupportedMimeType isTypeSupported)" using a by simp
    from stop_after_start_bytes [of isTypeSupported final "[c1, c2, c3]" now s0] sup
    obtain s' where s': "stop final (deliver [c1, c2, c3] (fst (startRecording Granted isTypeSupported now s0))) = Inr s'"
      "map_option blob_data (audioBlob s') = Some (concat (map blob_data ([c1, c2, c3] @ [final])))"
      "map_option blob_size (audioBlob s') = Some (sum_list (map blob_size ([c1, c2, c3] @ [final])))"
      "session_state s' = Stopped"
      by blast
    have "blob_data final = []" using a by (simp add: blob_size_def)
    then have "map_option blob_data (audioBlob s') = Some (blob_data c1 @ blob_data c2 @ blob_data c3)"
      using s'(2) by simp
    moreover have "map_option blob_size (audioBlob s') = Some 45"
      using s'(3) a by simp
    ultimately show ?thesis using s'(1,4) by blast
  qed
  show ?thesis using 1 2 3 by blast
qed

theorem recording_concatenates_chunks_witness:
  "(\<lambda>ty. True) (getSupportedMimeType (\<lambda>ty. True))
   \<and> blob_size \<lparr>blob_data = replicate 10 1, blob_type = ''audio/mp4''\<rparr> = 10
   \<and> blob_size \<lparr>blob_data = replicate 20 2, blob_type = ''audio/mp4''\<rparr> = 20
   \<and> blob_size \<lparr>blob_data = replicate 15 3, blob_type = ''audio/mp4''\<rparr> = 15
   \<and> blob_size \<lparr>blob_data = [], blob_type = ''audio/mp4''\<rparr> = 0
   \<and> (\<exists>s'. stop \<lparr>blob_data = [], blob_type = ''audio/mp4''\<rparr>
               (deliver [\<lparr>blob_data = replicate 10 1, blob_type = ''audio/mp4''\<rparr>,
                         \<lparr>blob_data = replicate 20 2, blob_type = ''audio/mp4''\<rparr>,
                         \<lparr>blob_data = replicate 15 3, blob_type = ''audio/mp4''\<rparr>]
                  (fst (startRecording Granted (\<lambda>ty. True) 0 initial_session))) = Inr s'
          \<and> map_option blob_data (audioBlob s')
              = Some (replicate 10 1 @ replicate 20 2 @ replicate 15 3)
          \<and> map_option blob_size (audioBlob s') = Some 45
          \<and> session_state s' = Stopped)"
  using recording_concatenates_chunks
    [of "[]" initial_session "\<lambda>ty. True" "\<lparr>blob_data = [], blob_type = ''audio/mp4''\<rparr>" 0
        initial_session
        "\<lparr>blob_data = replicate 10 1, blob_type = ''audio/mp4''\<rparr>"
        "\<lparr>blob_data = replicate 20 2, blob_type = ''audio/mp4''\<rparr>"
        "\<lparr>blob_data = replicate 15 3, blob_type = ''audio/mp4''\<rparr>"]
  by (simp add: blob_size_def)




text \<open>
  C5 (as amended). \<open>reset()\<close>, from any state, pauses and rewinds the playback
  element, revokes the object URL of the artifact, and leaves the session Idle with an
  undefined artifact and elapsed time 0. The chunk sequence is left as it is; the next
  successful \<open>start()\<close> empties it.
\<close>

theorem reset_returns_to_idle:
  "session_state (reset s) = Idle
   \<and> audioBlob (reset s) = None
   \<and> audioUrl (reset s) = None
   \<and> recordingTime (reset s) = 0
   \<and> \<not> isPlaying (reset s)
   \<and> audioRef (resetRecording s) = map_option (\<lambda>a. a\<lparr>paused := True, currentTime := 0\<rparr>) (audioRef s)
   \<and> audioRef (reset s) = None
   \<and> (audioUrl s = Some url \<longrightarrow> url \<notin> set (objectUrls (reset s)))
   \<and> chunksRef (reset s) = chunksRef s
   \<and> (isTypeSupported (getSupportedMimeType isTypeSupported) \<longrightarrow>
        chunksRef (fst (startRecording Granted isTypeSupported now (reset s))) = [])"
proof -
  have "session_state (reset s) = Idle"
    by (simp add: session_state_def reset_fields)
  moreover have "isTypeSupported (getSupportedMimeType isTypeSupported) \<longrightarrow>
        chunksRef (fst (startRecording Granted isTypeSupported now (reset s))) = []"
    using startRecording_Granted [of isTypeSupported now "reset s"] by simp
  ultimately show ?thesis
    using reset_revokes [of s url] resetRecording_pauses [of s]
    by (simp add: reset_fields reset_unmounts)
qed

theorem reset_returns_to_idle_witness:
  "audioUrl (initial_session\<lparr>audioUrl := Some 3, objectUrls := [3]\<rparr>) = Some 3
   \<and> 3 \<notin> set (objectUrls (reset (initial_session\<lparr>audioUrl := Some 3, objectUrls := [3]\<rparr>)))
   \<and> (\<lambda>ty. True) (getSupportedMimeType (\<lambda>ty. True))
   \<and> chunksRef (fst (startRecording Granted (\<lambda>ty. True) 0
                      (reset (initial_session\<lparr>audioUrl := Some 3, objectUrls := [3]\<rparr>)))) = []
   \<and> session_state (reset (initial_session\<lparr>audioUrl := Some 3, objectUrls := [3]\<rparr>)) = Idle"
  using reset_returns_to_idle
    [of "initial_session\<lparr>audioUrl := Some 3, objectUrls := [3]\<rparr>" 3 "\<lambda>ty. True" 0]
  by (simp add: initial_session_def)

text \<open>
  C5 as stated, with an empty chunk sequence after \<open>reset()\<close>, fails: after a
  recording of one chunk has been stopped, \<open>reset()\<close> leaves that chunk in
  \<open>chunksRef\<close>.
\<close>

theorem reset_keeps_chunks:
  "chunksRef
     (reset (projr (stop \<lparr>blob_data = [], blob_type = ''audio/webm''\<rparr>
                      (deliver [\<lparr>blob_data = [1, 2, 3], blob_type = ''audio/webm''\<rparr>]
                         (fst (startRecording Granted ((=) ''audio/webm'') 0 initial_session))))))
   = [\<lparr>blob_data = [1, 2, 3], blob_type = ''audio/webm''\<rparr>]
   \<and> session_state
       (projr (stop \<lparr>blob_data = [], blob_type = ''audio/webm''\<rparr>
                 (deliver [\<lparr>blob_data = [1, 2, 3], blob_type = ''audio/webm''\<rparr>]
                    (fst (startRecording Granted ((=) ''audio/webm'') 0 initial_session)))))
     = Stopped"
  by (simp add: reset_fields deliver_eq startRecording_def getSupportedMimeType_def Let_def
      initial_session_def stop_def stopRecording_def ondataavailable_def onstop_def
      rerender_fields rerender_session_fields blob_size_def session_state_def)


text \<open>
  C6. When \<open>getUserMedia\<close> rejects, \<open>startRecording\<close> (either path) reports the
  failure once, by \<open>console.error\<close> and a blocking \<open>alert\<close>, asks for the device
  only that one time, and leaves every state cell and runtime resource as it was: from
  the initial state the session is still Idle, no timer runs and no stream is live.
\<close>

theorem start_failure_leaves_idle:
  "startRecording (Rejected err) isTypeSupported now s
     = (s, [ConsoleError ''Error accessing microphone:'',
            Alert ''Unable to access microphone. Please check permissions.''])
   \<and> startRecording_wav (Rejected err) contextCreated w
     = (w, [ConsoleError ''Error accessing microphone:'',
            Alert ''Unable to access microphone. Please check permissions.''])
   \<and> session_state (fst (startRecording (Rejected err) isTypeSupported now initial_session)) = Idle
   \<and> intervals (fst (startRecording (Rejected err) isTypeSupported now initial_session)) = []
   \<and> liveStreams (fst (startRecording (Rejected err) isTypeSupported now initial_session)) = []
   \<and> session_state (fst (startRecording_wav (Rejected err) contextCreated initial_wav_session)) = Idle
   \<and> intervals (fst (startRecording_wav (Rejected err) contextCreated initial_wav_session)) = []
   \<and> liveStreams (fst (startRecording_wav (Rejected err) contextCreated initial_wav_session)) = []"
  by (simp add: startRecording_def startRecording_wav_def session_state_def
      initial_session_def initial_wav_session_def)


text \<open>
  C7. \<open>stop()\<close> on a session that is not Recording (Idle or Stopped) changes nothing
  and raises no error, in the handler and in the whole operation, on both paths.
\<close>

theorem stop_is_noop_unless_recording:
  "(session_state s \<noteq> Recording \<longrightarrow> stopRecording s = Inr s \<and> stop final s = Inr s)
   \<and> (session_state w \<noteq> Recording \<longrightarrow> stopRecording_wav w = Inr w \<and> stop_wav w = Inr w)"
  using stop_not_recording [of s final] stop_wav_not_recording [of w]
  by (simp only: not_Recording_iff) blast

theorem stop_is_noop_unless_recording_witness:
  "session_state initial_session \<noteq> Recording
   \<and> session_state (initial_session\<lparr>audioUrl := Some 3\<rparr>) \<noteq> Recording
   \<and> session_state initial_wav_session \<noteq> Recording
   \<and> stopRecording initial_session = Inr initial_session
   \<and> stop \<lparr>blob_data = [7], blob_type = ''audio/webm''\<rparr> initial_session = Inr initial_session
   \<and> stop \<lparr>blob_data = [7], blob_type = ''audio/webm''\<rparr> (initial_session\<lparr>audioUrl := Some 3\<rparr>) = Inr (initial_session\<lparr>audioUrl := Some 3\<rparr>)
   \<and> stopRecording_wav initial_wav_session = Inr initial_wav_session
   \<and> stop_wav initial_wav_session = Inr initial_wav_session"
  using stop_is_noop_unless_recording [of initial_session "\<lparr>blob_data = [7], blob_type = ''audio/webm''\<rparr>" initial_wav_session]
    stop_is_noop_unless_recording [of "initial_session\<lparr>audioUrl := Some 3\<rparr>" "\<lparr>blob_data = [7], blob_type = ''audio/webm''\<rparr>" initial_wav_session]
  by (simp add: session_state_def initial_session_def initial_wav_session_def)


text \<open>
  C8. The extension \<open>downloadAudio\<close> puts on the file name is a function of the
  artifact's media type alone, defined for every string: \<open>m4a\<close> if the type contains
  "mp4", else \<open>webm\<close> if it contains "webm", else \<open>ogg\<close> if it contains "ogg", else
  \<open>wav\<close> if it contains "wav", else \<open>mp3\<close>, where "contains" is the substring
  relation. Revision 2 always writes \<open>.wav\<close>, which is what the mapping gives for its
  only media type \<open>audio/wav\<close>.
\<close>

theorem download_extension:
  \<open>(String_includes t ''mp4'' \<longrightarrow> extension t = ''m4a'')
   \<and> (\<not> String_includes t ''mp4'' \<and> String_includes t ''webm'' \<longrightarrow> extension t = ''webm'')
   \<and> (\<not> String_includes t ''mp4'' \<and> \<not> String_includes t ''webm'' \<and> String_includes t ''ogg''
        \<longrightarrow> extension t = ''ogg'')
   \<and> (\<not> String_includes t ''mp4'' \<and> \<not> String_includes t ''webm'' \<and> \<not> String_includes t ''ogg''
        \<and> String_includes t ''wav'' \<longrightarrow> extension t = ''wav'')
   \<and> (\<not> String_includes t ''mp4'' \<and> \<not> String_includes t ''webm'' \<and> \<not> String_includes t ''ogg''
        \<and> \<not> String_includes t ''wav'' \<longrightarrow> extension t = ''mp3'')
   \<and> (String_includes t search \<longleftrightarrow> (\<exists>before after. t = before @ search @ after))
   \<and> (audioBlob s = Some blob \<and> audioUrl s = Some url \<longrightarrow>
        downloadAudio isoString s
          = Some (''recording-'' @ timestamp isoString @ ''.'' @ extension (blob_type blob)))
   \<and> (audioBlob w = Some blob \<and> audioUrl w = Some url \<longrightarrow>
        downloadAudio_wav isoString w
          = Some (''recording-'' @ timestamp isoString @ ''.'' @ extension ''audio/wav''))
   \<and> map extension [''audio/mp4; codecs="mp4a.40.2"'', ''audio/webm; codecs=opus'', ''audio/webm'',
        ''audio/mp4'', ''audio/ogg; codecs=opus'', ''audio/ogg'', ''audio/wav'']
      = [''m4a'', ''webm'', ''webm'', ''m4a'', ''ogg'', ''ogg'', ''wav'']\<close>
proof -
  have d: "audioBlob s = Some blob \<and> audioUrl s = Some url \<longrightarrow>
        downloadAudio isoString s
          = Some (''recording-'' @ timestamp isoString @ ''.'' @ extension (blob_type blob))"
    by (simp add: downloadAudio_def)
  have "extension ''audio/wav'' = ''wav''"
    by (simp add: extension_def)
  then have dw: "audioBlob w = Some blob \<and> audioUrl w = Some url \<longrightarrow>
        downloadAudio_wav isoString w
          = Some (''recording-'' @ timestamp isoString @ ''.'' @ extension ''audio/wav'')"
    by (simp add: downloadAudio_wav_def)
  show ?thesis
    using extension_cases [of t] String_includes_iff [of t search] extension_values d dw
    by blast
qed

theorem download_extension_witness:
  \<open>String_includes ''audio/mp4'' ''mp4'' \<and> extension ''audio/mp4'' = ''m4a''
   \<and> \<not> String_includes ''video/webm'' ''mp4'' \<and> String_includes ''video/webm'' ''webm''
   \<and> extension ''video/webm'' = ''webm''
   \<and> \<not> String_includes ''audio/ogg'' ''mp4'' \<and> \<not> String_includes ''audio/ogg'' ''webm''
   \<and> String_includes ''audio/ogg'' ''ogg'' \<and> extension ''audio/ogg'' = ''ogg''
   \<and> \<not> String_includes ''audio/wav'' ''mp4'' \<and> \<not> String_includes ''audio/wav'' ''webm''
   \<and> \<not> String_includes ''audio/wav'' ''ogg'' \<and> String_includes ''audio/wav'' ''wav''
   \<and> extension ''audio/wav'' = ''wav''
   \<and> \<not> String_includes ''audio/mpeg'' ''mp4'' \<and> \<not> String_includes ''audio/mpeg'' ''webm''
   \<and> \<not> String_includes ''audio/mpeg'' ''ogg'' \<and> \<not> String_includes ''audio/mpeg'' ''wav''
   \<and> extension ''audio/mpeg'' = ''mp3''
   \<and> downloadAudio ''2024-05-01T12:34:56.789Z''
        (initial_session\<lparr>audioBlob := Some \<lparr>blob_data = [], blob_type = ''audio/ogg''\<rparr>,
                          audioUrl := Some 3\<rparr>)
      = Some ''recording-2024-05-01T12-34-56.ogg''
   \<and> downloadAudio_wav ''2024-05-01T12:34:56.789Z''
        (initial_wav_session\<lparr>audioBlob := Some \<lparr>blob_data = [], blob_type = ''audio/wav''\<rparr>,
                              audioUrl := Some 3\<rparr>)
      = Some ''recording-2024-05-01T12-34-56.wav''\<close>
  using download_extension [of "''audio/mp4''" "''mp4''"
      "initial_session\<lparr>audioBlob := Some \<lparr>blob_data = [], blob_type = ''audio/ogg''\<rparr>,
                        audioUrl := Some 3\<rparr>"
      "\<lparr>blob_data = [], blob_type = ''audio/ogg''\<rparr>" 3 "''2024-05-01T12:34:56.789Z''"
      "initial_wav_session\<lparr>audioBlob := Some \<lparr>blob_data = [], blob_type = ''audio/ogg''\<rparr>,
                            audioUrl := Some 3\<rparr>"]
    download_extension [of "''video/webm''"] download_extension [of "''audio/ogg''"]
    download_extension [of "''audio/wav''"] download_extension [of "''audio/mpeg''"]
  by (simp add: timestamp_def extension_def downloadAudio_wav_def)


text \<open>
  C9. The claim: after a submission answered by a non-2xx response whose JSON body has a
  \<open>detail\<close> field, the error message the user sees is that detail, and the artifact
  is unchanged and can be submitted again. The code at the claim's own example, a
  stopped one-chunk recording submitted and answered by status 413 with the detail "file
  too large": the detail is stored in \<open>transcriptError\<close> and the artifact is unchanged,
  but \<open>showTranscript\<close> is still unset, so the body of the panel, where the error text
  is rendered, is not shown. A successful submission from the same state sets
  \<open>showTranscript\<close> and its transcript is shown at once.
\<close>

theorem transcription_error_stays_hidden:
  "transcriptError
     (transcribeAudio (Response 413 (Json (Some ''file too large'') None))
        (projr (stop \<lparr>blob_data = [], blob_type = ''audio/webm''\<rparr>
           (deliver [\<lparr>blob_data = [1, 2, 3], blob_type = ''audio/webm''\<rparr>]
              (fst (startRecording Granted ((=) ''audio/webm'') 0 initial_session))))))
     = Some ''file too large''
   \<and> \<not> showTranscript
       (transcribeAudio (Response 413 (Json (Some ''file too large'') None))
          (projr (stop \<lparr>blob_data = [], blob_type = ''audio/webm''\<rparr>
             (deliver [\<lparr>blob_data = [1, 2, 3], blob_type = ''audio/webm''\<rparr>]
                (fst (startRecording Granted ((=) ''audio/webm'') 0 initial_session))))))
   \<and> shown_error
       (transcribeAudio (Response 413 (Json (Some ''file too large'') None))
          (projr (stop \<lparr>blob_data = [], blob_type = ''audio/webm''\<rparr>
             (deliver [\<lparr>blob_data = [1, 2, 3], blob_type = ''audio/webm''\<rparr>]
                (fst (startRecording Granted ((=) ''audio/webm'') 0 initial_session))))))
     = None
   \<and> audioBlob
       (transcribeAudio (Response 413 (Json (Some ''file too large'') None))
          (projr (stop \<lparr>blob_data = [], blob_type = ''audio/webm''\<rparr>
             (deliver [\<lparr>blob_data = [1, 2, 3], blob_type = ''audio/webm''\<rparr>]
                (fst (startRecording Granted ((=) ''audio/webm'') 0 initial_session))))))
     = Some \<lparr>blob_data = [1, 2, 3], blob_type = ''audio/webm''\<rparr>
   \<and> shown_transcript
       (transcribeAudio (Response 200 (Json None (Some ''hello'')))
          (projr (stop \<lparr>blob_data = [], blob_type = ''audio/webm''\<rparr>
             (deliver [\<lparr>blob_data = [1, 2, 3], blob_type = ''audio/webm''\<rparr>]
                (fst (startRecording Granted ((=) ''audio/webm'') 0 initial_session))))))
     = Some ''hello''"
  by (simp add: transcribeAudio_def ok_def shown_error_def shown_transcript_def panel_def
      truthy_def deliver_eq startRecording_def getSupportedMimeType_def Let_def
      initial_session_def stop_def stopRecording_def ondataavailable_def onstop_def
      rerender_def cleanup_def mount_eq new_Blob_def blob_size_def)

end
